theory Spec2Isabelle
  imports Complex_Main
begin

section \<open>JavaScript values\<close>

text \<open>
  Remote payloads are dynamically shaped, and the routes test them by truthiness and by
  optional property access.  A value is therefore a tree of the JSON constructors plus
  \<open>undefined\<close>, which is what reading an absent property yields.  Numbers are integers
  here: the routes only test a number for being zero.
\<close>

datatype jsval =
    JUndefined
  | JNull
  | JBool bool
  | JNum int
  | JStr string
  | JArr "jsval list"
  | JObj "(string \<times> jsval) list"

text \<open>\<open>!!v\<close>: the falsy values are undefined, null, false, 0 and the empty string.\<close>

fun truthy :: "jsval \<Rightarrow> bool" where
  "truthy JUndefined = False"
| "truthy JNull = False"
| "truthy (JBool b) = b"
| "truthy (JNum n) = (n \<noteq> 0)"
| "truthy (JStr s) = (s \<noteq> [])"
| "truthy (JArr xs) = True"
| "truthy (JObj kvs) = True"

text \<open>Truthiness of a nullable database text column (\<open>None\<close> is a missing row or NULL).\<close>

fun truthy_str :: "string option \<Rightarrow> bool" where
  "truthy_str None = False"
| "truthy_str (Some s) = (s \<noteq> [])"

fun nullish :: "jsval \<Rightarrow> bool" where
  "nullish JUndefined = True"
| "nullish JNull = True"
| "nullish v = False"

text \<open>
  \<open>v.k\<close> on a value that is neither null nor undefined (the caller checks that: on those
  two JavaScript throws a TypeError).  None of the property names the routes read is a
  built-in property of a string, number, boolean or array, so only objects answer.
\<close>

fun get :: "jsval \<Rightarrow> string \<Rightarrow> jsval" where
  "get (JObj kvs) k = (case map_of kvs k of None \<Rightarrow> JUndefined | Some v \<Rightarrow> v)"
| "get v k = JUndefined"

text \<open>\<open>v?.k\<close>\<close>

definition opt_get :: "jsval \<Rightarrow> string \<Rightarrow> jsval" where
  "opt_get v k = (if nullish v then JUndefined else get v k)"

text \<open>\<open>a || b\<close>\<close>

definition js_or :: "jsval \<Rightarrow> jsval \<Rightarrow> jsval" where
  "js_or a b = (if truthy a then a else b)"

section \<open>Server state: the settings table, the session table, the playlists\<close>

record credentials =
  accessToken :: string
  refreshToken :: string
  userId :: "string option"

text \<open>One entry of \<open>deviceCodeSessions\<close>; \<open>interval\<close> is in milliseconds.\<close>

record session =
  createdAt :: nat
  expiresIn :: rat
  interval :: rat

record playlist =
  name :: string
  yoto_card_id :: "string option"

record song =
  song_title :: string
  song_file_path :: "string option"
  song_duration :: "int option"

text \<open>
  The module-level state of the Yoto routes together with the tables they read and write.
  \<open>settings\<close> is the key/value table: a key has a row or not, and the \<open>value\<close> column of a
  row is a text or NULL (\<open>None\<close>), as the schema allows.  \<open>yotoClient\<close> is the cached client
  (the credentials it was built from), \<open>playlist_songs\<close> the result of the ordered join
  query for a playlist.
\<close>

record server_state =
  settings :: "string \<rightharpoonup> string option"
  yotoClient :: "credentials option"
  deviceCodeSessions :: "string \<rightharpoonup> session"
  playlists :: "string \<rightharpoonup> playlist"
  playlist_songs :: "string \<Rightarrow> song list"

subsection \<open>Credential store\<close>

text \<open>\<open>row?.value\<close>: undefined for a missing row, null for a NULL value; both are \<open>None\<close>.\<close>

fun value_of :: "string option option \<Rightarrow> string option" where
  "value_of None = None"
| "value_of (Some v) = v"

definition getStoredCredentials :: "server_state \<Rightarrow> credentials option" where
  "getStoredCredentials st =
     (let accessTokenRow = settings st ''yoto_access_token'';
          refreshTokenRow = settings st ''yoto_refresh_token'';
          userIdRow = settings st ''yoto_user_id''
      in if \<not> truthy_str (value_of accessTokenRow) \<or> \<not> truthy_str (value_of refreshTokenRow)
         then None
         else (case (value_of accessTokenRow, value_of refreshTokenRow) of
                 (Some a, Some r) \<Rightarrow>
                   Some \<lparr>accessToken = a, refreshToken = r, userId = value_of userIdRow\<rparr>
               | _ \<Rightarrow> None))"

text \<open>
  The tokens are whatever the caller passes: a string, or null or undefined (\<open>None\<close>),
  which the database driver binds as NULL.  The two upserts always run, one after the
  other; the third runs for a truthy user id.
\<close>

definition saveCredentials ::
  "server_state \<Rightarrow> string option \<Rightarrow> string option \<Rightarrow> string option \<Rightarrow> server_state" where
  "saveCredentials st a r u =
     (let s1 = (settings st)(''yoto_access_token'' \<mapsto> a);
          s2 = s1(''yoto_refresh_token'' \<mapsto> r);
          s3 = (if truthy_str u then s2(''yoto_user_id'' \<mapsto> u) else s2)
      in st\<lparr>settings := s3, yotoClient := None\<rparr>)"

text \<open>
  The SQL pattern \<open>LIKE 'yoto_%'\<close>: \<open>_\<close> matches any one character, \<open>%\<close> any sequence, and
  SQLite compares ASCII letters without regard to case.
\<close>

fun like_yoto :: "string \<Rightarrow> bool" where
  "like_yoto (a # b # c # d # e # rest) =
     (a \<in> {CHR ''y'', CHR ''Y''} \<and> b \<in> {CHR ''o'', CHR ''O''} \<and>
      c \<in> {CHR ''t'', CHR ''T''} \<and> d \<in> {CHR ''o'', CHR ''O''})"
| "like_yoto k = False"

definition clearCredentials :: "server_state \<Rightarrow> server_state" where
  "clearCredentials st =
     st\<lparr>settings := (\<lambda>k. if like_yoto k then None else settings st k), yotoClient := None\<rparr>"



section \<open>Device auth flow\<close>

text \<open>
  The library calls \<open>YotoClient.requestDeviceCode\<close> and \<open>YotoClient.pollForDeviceToken\<close> are
  not part of the repository; their outcomes are inputs of the routes.
\<close>

record device_auth =
  device_code :: string
  user_code :: string
  verification_uri :: string
  verification_uri_complete :: string
  expires_in :: rat
  da_interval :: rat

text \<open>The token pair of a success reply; a field the reply lacks is \<open>None\<close>.\<close>

record tokens =
  access_token :: "string option"
  refresh_token :: "string option"

text \<open>
  What one call of \<open>pollForDeviceToken\<close> does: it resolves with a status (the route tests
  for \<open>success\<close>, \<open>pending\<close> and \<open>slow_down\<close> and has no branch for anything else), or it
  rejects with an error carrying an optional \<open>error_description\<close> and a message.
\<close>

datatype poll_result =
    Success tokens
  | Pending
  | SlowDown rat
  | OtherStatus
  | Rejects "string option" string

datatype reply_body =
    DeviceCodeIssued device_auth
  | FailedToStartLogin string
  | DeviceCodeRequired
  | InvalidSession
  | LoginSuccessful
  | PendingBody "rat option"
  | AuthorizationFailed string
  | LoggedOut

text \<open>An HTTP reply: status code and body.\<close>

datatype reply = Reply nat reply_body

text \<open>A call to the remote authorization server: device code and \<open>currentInterval\<close>.\<close>

datatype auth_call = PollForDeviceToken jsval rat

text \<open>\<open>POST /auth/device-code\<close>; \<open>now\<close> is \<open>Date.now()\<close>.\<close>

definition auth_device_code :: "(string + device_auth) \<Rightarrow> nat \<Rightarrow> server_state \<Rightarrow> reply \<times> server_state" where
  "auth_device_code requestDeviceCode now st =
     (case requestDeviceCode of
        Inl message \<Rightarrow> (Reply 500 (FailedToStartLogin message), st)
      | Inr deviceAuth \<Rightarrow>
          (Reply 200 (DeviceCodeIssued deviceAuth),
           st\<lparr>deviceCodeSessions := (deviceCodeSessions st)(device_code deviceAuth \<mapsto>
                 \<lparr>createdAt = now, expiresIn = expires_in deviceAuth,
                  interval = da_interval deviceAuth * 1000\<rparr>)\<rparr>))"

text \<open>\<open>deviceCodeSessions.get(deviceCode)\<close>: the keys of the table are strings.\<close>

fun session_get :: "server_state \<Rightarrow> jsval \<Rightarrow> session option" where
  "session_get st (JStr d) = deviceCodeSessions st d"
| "session_get st v = None"

fun session_delete :: "server_state \<Rightarrow> jsval \<Rightarrow> server_state" where
  "session_delete st (JStr d) = st\<lparr>deviceCodeSessions := (deviceCodeSessions st)(d := None)\<rparr>"
| "session_delete st v = st"

fun session_set_interval :: "server_state \<Rightarrow> jsval \<Rightarrow> rat \<Rightarrow> server_state" where
  "session_set_interval st (JStr d) i =
     (case deviceCodeSessions st d of
        None \<Rightarrow> st
      | Some s \<Rightarrow> st\<lparr>deviceCodeSessions := (deviceCodeSessions st)(d \<mapsto> s\<lparr>interval := i\<rparr>)\<rparr>)"
| "session_set_interval st v i = st"

text \<open>
  \<open>POST /auth/poll\<close>.  \<open>pollForDeviceToken\<close> is the behaviour of the library call at this
  moment, \<open>decode_sub\<close> the extraction of the \<open>sub\<close> claim from the access token (\<open>None\<close>
  when decoding throws or the claim is absent; it throws on an access token that is
  undefined).  The result is the reply (\<open>None\<close> where the
  route sends none), the calls made to the authorization server, and the new state.
\<close>

definition auth_poll ::
  "(jsval \<Rightarrow> rat \<Rightarrow> poll_result) \<Rightarrow> (string \<Rightarrow> string option) \<Rightarrow> server_state \<Rightarrow> jsval
     \<Rightarrow> reply option \<times> auth_call list \<times> server_state" where
  "auth_poll pollForDeviceToken decode_sub st deviceCode =
     (if \<not> truthy deviceCode then (Some (Reply 400 DeviceCodeRequired), [], st)
      else case session_get st deviceCode of
        None \<Rightarrow> (Some (Reply 400 InvalidSession), [], st)
      | Some sess \<Rightarrow>
          (let calls = [PollForDeviceToken deviceCode (interval sess)]
           in case pollForDeviceToken deviceCode (interval sess) of
                Success tk \<Rightarrow>
                  (let uid = (case access_token tk of None \<Rightarrow> None | Some t \<Rightarrow> decode_sub t);
                       st1 = saveCredentials st (access_token tk) (refresh_token tk) uid;
                       st2 = session_delete st1 deviceCode
                   in (Some (Reply 200 LoginSuccessful), calls, st2))
              | Pending \<Rightarrow> (Some (Reply 200 (PendingBody None)), calls, st)
              | SlowDown i \<Rightarrow>
                  (Some (Reply 200 (PendingBody (Some (i / 1000)))), calls,
                   session_set_interval st deviceCode i)
              | OtherStatus \<Rightarrow> (None, calls, st)
              | Rejects description message \<Rightarrow>
                  (Some (Reply 400 (AuthorizationFailed
                      (case description of Some d \<Rightarrow> if d \<noteq> [] then d else message
                       | None \<Rightarrow> message))),
                   calls, session_delete st deviceCode)))"

text \<open>\<open>DELETE /auth\<close>\<close>

definition auth_logout :: "server_state \<Rightarrow> reply \<times> server_state" where
  "auth_logout st = (Reply 200 LoggedOut, clearCredentials st)"

subsection \<open>The browser's poll loop\<close>

text \<open>
  \<open>pollYotoLogin(deviceCode, interval)\<close> in the client: after each reply with status
  \<open>pending\<close> it schedules the next poll after \<open>(data.interval || interval) * 1000\<close>
  milliseconds, where \<open>interval\<close> is the argument the loop was started with (seconds).
  Any other reply, or none, ends the loop.
\<close>

fun next_wait :: "rat \<Rightarrow> reply option \<Rightarrow> rat option" where
  "next_wait ival (Some (Reply code (PendingBody data_interval))) =
     (let nextInterval = (case data_interval of
                            Some i \<Rightarrow> if i \<noteq> 0 then i else ival
                          | None \<Rightarrow> ival)
      in Some (nextInterval * 1000))"
| "next_wait ival r = None"

text \<open>
  The loop run against the poll route, one library outcome per poll; the result is the
  sequence of timer delays (milliseconds) and the server state afterwards.  The list of
  library outcomes bounds the observation, so the function is total although the loop
  itself runs as long as the server answers \<open>pending\<close>.
\<close>

fun pollYotoLogin ::
  "(jsval \<Rightarrow> rat \<Rightarrow> poll_result) list \<Rightarrow> (string \<Rightarrow> string option) \<Rightarrow> server_state \<Rightarrow> jsval \<Rightarrow> rat
     \<Rightarrow> rat list \<times> server_state" where
  "pollYotoLogin [] decode_sub st deviceCode ival = ([], st)"
| "pollYotoLogin (lib # libs) decode_sub st deviceCode ival =
     (case auth_poll lib decode_sub st deviceCode of
        (r, calls, st') \<Rightarrow>
          (case next_wait ival r of
             None \<Rightarrow> ([], st')
           | Some w \<Rightarrow>
               (case pollYotoLogin libs decode_sub st' deviceCode ival of
                  (ws, st'') \<Rightarrow> (w # ws, st''))))"


section \<open>Upload client and publish orchestrator\<close>

subsection \<open>Errors, requests, events\<close>

text \<open>
  The values the upload client can throw.  The first five are the exceptions of the calls
  it makes (a rejected \<open>fetch\<close>, a body that is not JSON, a property read on null, a file
  that cannot be read, a value the database driver cannot bind); the rest are the
  \<open>throw new Error\<close> statements of \<open>uploadAudioToYoto\<close>, with the data their messages
  are formatted from.
\<close>

datatype error =
    FetchRejected string
  | JsonParseError
  | TypeError
  | ReadFileError
  | DbBindError
  | FailedToGetUploadUrl nat string
  | NoUploadId jsval
  | FailedToUploadToS3 nat
  | TranscodingTimedOut

record response =
  status :: nat
  body_text :: string
  json :: "jsval option"

text \<open>\<open>response.ok\<close>: the status is in the range 200 to 299.\<close>

definition ok :: "response \<Rightarrow> bool" where
  "ok r = (200 \<le> status r \<and> status r \<le> 299)"

text \<open>A track as pushed on the \<open>tracks\<close> array by the upload loop.\<close>

record track =
  track_title :: string
  trackNumber :: nat
  track_key :: jsval
  track_duration :: "int option"
  track_format :: string

text \<open>The manifest posted to the content endpoint.\<close>

record chapter_track =
  ct_key :: string
  ct_title :: string
  ct_format :: string
  ct_trackUrl :: jsval
  ct_type :: string
  ct_duration :: int

record manifest_chapter =
  ch_key :: string
  ch_title :: string
  ch_tracks :: "chapter_track list"

record content =
  c_title :: string
  c_activity :: string
  c_chapters :: "manifest_chapter list"
  c_onlineOnly :: bool
  c_version :: string
  c_cover :: string
  c_userId :: "string option"
  c_cardId :: "string option"

datatype request =
    GetUploadUrl string string string
  | PutS3 jsval string
  | GetTranscoded string jsval
  | PostContent string content

text \<open>The lines passed to the \<open>log\<close> sink, with the data they are formatted from.\<close>

datatype log_msg =
    GettingUploadUrl
  | UploadingToS3
  | FileAlreadyUploaded
  | WaitingForTranscoding
  | Status jsval
  | TranscodingComplete
  | TranscodeProgress jsval jsval
  | StatusCheckFailed nat
  | Transcoding nat
  | UpdatingCard
  | CreatingCard
  | Sending content
  | ErrorResponse string
  | SavedCardId jsval

text \<open>The payload of a terminal \<open>error\<close> event.\<close>

datatype failure =
    NotConnected
  | PlaylistNotFound
  | SongsNotDownloaded "string list"
  | AllUploadsFailed "(string \<times> error) list"
  | FailedToCreateCard nat string
  | Uncaught error

text \<open>
  The events of the stream, by their \<open>type\<close> field: \<open>upload-start\<close>, \<open>log\<close>,
  \<open>upload-complete\<close>, \<open>upload-error\<close> (each with \<open>current\<close>, \<open>total\<close>, \<open>title\<close>), \<open>error\<close>,
  and \<open>done\<close> with \<open>card\<close>, \<open>uploadedTracks\<close> and \<open>errors\<close> (\<open>None\<close> is undefined).
\<close>

datatype event =
    UploadStart nat nat string
  | Log log_msg
  | UploadComplete nat nat string
  | UploadError nat nat string error
  | Error failure
  | Done jsval nat "(string \<times> error) list option"

text \<open>
  What a run does to the outside, in order: an event written to the response, the
  response ended, a network request, a timer wait in milliseconds.
\<close>

datatype effect =
    Write event
  | End
  | Net request
  | Sleep nat

text \<open>
  The environment of a run.  \<open>remote\<close> is the other end of \<open>fetch\<close>: given everything the run
  has done so far and the request, a response or a rejection.  \<open>db_bind\<close> is the text the
  database driver stores for a value (\<open>None\<close>: it refuses the value).  Hashing and path
  handling are library functions taken as given.
\<close>

record env =
  readFileSync :: "string \<Rightarrow> string option"
  existsSync :: "string \<Rightarrow> bool"
  sha256 :: "string \<Rightarrow> string"
  basename :: "string \<Rightarrow> string"
  remote :: "effect list \<Rightarrow> request \<Rightarrow> error + response"
  db_bind :: "jsval \<Rightarrow> string option"

definition fetch :: "env \<Rightarrow> request \<Rightarrow> effect list \<Rightarrow> (error + response) \<times> effect list" where
  "fetch ev rq tr = (remote ev tr rq, tr @ [Net rq])"

definition sendEvent :: "event \<Rightarrow> effect list \<Rightarrow> effect list" where
  "sendEvent e tr = tr @ [Write e]"

subsection \<open>uploadAudioToYoto\<close>

text \<open>One pass through the body of the polling loop ends in one of three ways.\<close>

datatype poll_outcome = Break jsval | Continue | Throw error

definition poll_body ::
  "env \<Rightarrow> string \<Rightarrow> jsval \<Rightarrow> (log_msg \<Rightarrow> effect list \<Rightarrow> effect list) \<Rightarrow> nat \<Rightarrow> effect list
     \<Rightarrow> poll_outcome \<times> effect list" where
  "poll_body ev token uploadId logf attempt tr =
     (case fetch ev (GetTranscoded token uploadId) (tr @ [Sleep 2000]) of
        (Inl e, tr2) \<Rightarrow> (Throw e, tr2)
      | (Inr statusResponse, tr2) \<Rightarrow>
          if ok statusResponse then
            (case json statusResponse of
               None \<Rightarrow> (Throw JsonParseError, tr2)
             | Some statusData \<Rightarrow>
                 if nullish statusData then (Throw TypeError, tr2)
                 else
                   (let transcodeInfo =
                          js_or (js_or (get statusData ''transcode'') (get statusData ''transcoded''))
                                statusData;
                        tr3 = logf (Status transcodeInfo) tr2;
                        progress = get transcodeInfo ''progress'';
                        isComplete = (opt_get progress ''phase'' = JStr ''complete''
                                      \<or> truthy (get transcodeInfo ''transcodedAt''));
                        key = js_or (get transcodeInfo ''transcodedSha256'') (get transcodeInfo ''key'')
                    in if isComplete \<and> truthy key then (Break key, logf TranscodingComplete tr3)
                       else
                         (let tr4 = (if truthy progress
                                     then logf (TranscodeProgress (get progress ''phase'')
                                                  (js_or (get progress ''percent'') (JNum 0))) tr3
                                     else tr3)
                          in (Continue, logf (Transcoding (attempt + 1)) tr4))))
          else (Continue,
                logf (Transcoding (attempt + 1)) (logf (StatusCheckFailed (status statusResponse)) tr2)))"

text \<open>
  \<open>for (let attempt = 0; attempt < 30; attempt++)\<close>: the result is the value of
  \<open>transcoded\<close> after the loop (\<open>None\<close> is null), or the exception that left it.
\<close>

function poll_loop ::
  "env \<Rightarrow> string \<Rightarrow> jsval \<Rightarrow> (log_msg \<Rightarrow> effect list \<Rightarrow> effect list) \<Rightarrow> nat \<Rightarrow> effect list
     \<Rightarrow> (error + jsval option) \<times> effect list" where
  "poll_loop ev token uploadId logf attempt tr =
     (if attempt < 30 then
        (case poll_body ev token uploadId logf attempt tr of
           (Throw e, tr') \<Rightarrow> (Inl e, tr')
         | (Break key, tr') \<Rightarrow> (Inr (Some key), tr')
         | (Continue, tr') \<Rightarrow> poll_loop ev token uploadId logf (attempt + 1) tr')
      else (Inr None, tr))"
  by pat_completeness auto
termination
  by (relation "measure (\<lambda>(ev, token, uploadId, logf, attempt, tr). 30 - attempt)") auto

declare poll_loop.simps [simp del]

text \<open>
  Step 1 of \<open>uploadAudioToYoto\<close>: request an upload slot.  The result is the pair
  \<open>(uploadUrl, uploadId)\<close> read from the response.
\<close>

definition get_upload_url ::
  "env \<Rightarrow> string \<Rightarrow> string \<Rightarrow> string \<Rightarrow> (log_msg \<Rightarrow> effect list \<Rightarrow> effect list) \<Rightarrow> effect list
     \<Rightarrow> (error + jsval \<times> jsval) \<times> effect list" where
  "get_upload_url ev token path fileBuffer logf tr =
     (case fetch ev (GetUploadUrl token (sha256 ev fileBuffer) (basename ev path))
             (logf GettingUploadUrl tr) of
        (Inl e, tr1) \<Rightarrow> (Inl e, tr1)
      | (Inr uploadUrlResponse, tr1) \<Rightarrow>
          if \<not> ok uploadUrlResponse
          then (Inl (FailedToGetUploadUrl (status uploadUrlResponse) (body_text uploadUrlResponse)),
                tr1)
          else
            (case json uploadUrlResponse of
               None \<Rightarrow> (Inl JsonParseError, tr1)
             | Some uploadUrlData \<Rightarrow>
                 if nullish uploadUrlData then (Inl TypeError, tr1)
                 else
                   (let uploadUrl = opt_get (get uploadUrlData ''upload'') ''uploadUrl'';
                        uploadId = opt_get (get uploadUrlData ''upload'') ''uploadId''
                    in if \<not> truthy uploadId then (Inl (NoUploadId uploadUrlData), tr1)
                       else (Inr (uploadUrl, uploadId), tr1))))"

text \<open>
  Step 2: transfer the bytes, unless the slot came without a transfer target.  The
  result is the exception thrown, if any.
\<close>

definition upload_to_s3 ::
  "env \<Rightarrow> jsval \<Rightarrow> string \<Rightarrow> (log_msg \<Rightarrow> effect list \<Rightarrow> effect list) \<Rightarrow> effect list
     \<Rightarrow> error option \<times> effect list" where
  "upload_to_s3 ev uploadUrl fileBuffer logf tr =
     (if truthy uploadUrl
      then (case fetch ev (PutS3 uploadUrl fileBuffer) (logf UploadingToS3 tr) of
              (Inl e, tr2) \<Rightarrow> (Some e, tr2)
            | (Inr s3Response, tr2) \<Rightarrow>
                if \<not> ok s3Response then (Some (FailedToUploadToS3 (status s3Response)), tr2)
                else (None, tr2))
      else (None, logf FileAlreadyUploaded tr))"

text \<open>
  The whole function: read the file, steps 1 and 2, then step 3, the polling loop.  It
  returns the transcoded key (the one field of the object the source returns).
  \<open>filePath\<close> is \<open>None\<close> for a null path, on which \<open>readFileSync\<close> throws.
\<close>

definition uploadAudioToYoto ::
  "env \<Rightarrow> string option \<Rightarrow> string \<Rightarrow> (log_msg \<Rightarrow> effect list \<Rightarrow> effect list) \<Rightarrow> effect list
     \<Rightarrow> (error + jsval) \<times> effect list" where
  "uploadAudioToYoto ev filePath token logf tr =
     (case filePath of
        None \<Rightarrow> (Inl TypeError, tr)
      | Some path \<Rightarrow>
     (case readFileSync ev path of
        None \<Rightarrow> (Inl ReadFileError, tr)
      | Some fileBuffer \<Rightarrow>
     (case get_upload_url ev token path fileBuffer logf tr of
        (Inl e, tr1) \<Rightarrow> (Inl e, tr1)
      | (Inr (uploadUrl, uploadId), tr1) \<Rightarrow>
     (case upload_to_s3 ev uploadUrl fileBuffer logf tr1 of
        (Some e, tr2) \<Rightarrow> (Inl e, tr2)
      | (None, tr2) \<Rightarrow>
     (case poll_loop ev token uploadId logf 0 (logf WaitingForTranscoding tr2) of
        (Inl e, tr3) \<Rightarrow> (Inl e, tr3)
      | (Inr None, tr3) \<Rightarrow> (Inl TranscodingTimedOut, tr3)
      | (Inr (Some key), tr3) \<Rightarrow> (Inr key, tr3))))))"

subsection \<open>The streaming publish route\<close>

text \<open>\<open>String(i)\<close> for a non-negative integer, and \<open>padStart(2, '0')\<close>.\<close>

function String_of :: "nat \<Rightarrow> string" where
  "String_of n = (if n < 10 then [''0123456789'' ! n]
                  else String_of (n div 10) @ [''0123456789'' ! (n mod 10)])"
  by pat_completeness auto
termination
  by (relation "measure id") auto

declare String_of.simps [simp del]

definition padStart2 :: "string \<Rightarrow> string" where
  "padStart2 s = replicate (2 - length s) (CHR ''0'') @ s"

text \<open>The upload loop: \<open>for (let i = 0; i < songs.length; i++)\<close> with its try/catch.\<close>

function upload_loop ::
  "env \<Rightarrow> credentials \<Rightarrow> song list \<Rightarrow> nat \<Rightarrow> track list \<Rightarrow> (string \<times> error) list \<Rightarrow> effect list
     \<Rightarrow> track list \<times> (string \<times> error) list \<times> effect list" where
  "upload_loop ev creds songs i tracks errors tr =
     (if i < length songs then
        (let sng = songs ! i;
             tr1 = sendEvent (UploadStart (i + 1) (length songs) (song_title sng)) tr
         in case uploadAudioToYoto ev (song_file_path sng) (accessToken creds)
                   (\<lambda>msg. sendEvent (Log msg)) tr1 of
              (Inr result, tr2) \<Rightarrow>
                upload_loop ev creds songs (i + 1)
                  (tracks @ [\<lparr>track_title = song_title sng, trackNumber = i + 1, track_key = result,
                              track_duration = song_duration sng, track_format = ''mp3''\<rparr>])
                  errors
                  (sendEvent (UploadComplete (i + 1) (length songs) (song_title sng)) tr2)
            | (Inl err, tr2) \<Rightarrow>
                upload_loop ev creds songs (i + 1) tracks
                  (errors @ [(song_title sng, err)])
                  (sendEvent (UploadError (i + 1) (length songs) (song_title sng) err) tr2))
      else (tracks, errors, tr))"
  by pat_completeness auto
termination
  by (relation "measure (\<lambda>(ev, creds, songs, i, tracks, errors, tr). length songs - i)") auto

declare upload_loop.simps [simp del]

text \<open>\<open>tracks.map((t, i) => ...)\<close>: one chapter per uploaded track, keyed by its index.\<close>

definition mk_chapter :: "nat \<times> track \<Rightarrow> manifest_chapter" where
  "mk_chapter it =
     (case it of (i, t) \<Rightarrow>
        \<lparr>ch_key = padStart2 (String_of i), ch_title = track_title t,
         ch_tracks = [\<lparr>ct_key = ''01'', ct_title = track_title t, ct_format = ''aac'',
                       ct_trackUrl = track_key t, ct_type = ''audio'',
                       ct_duration = (case track_duration t of None \<Rightarrow> 0 | Some d \<Rightarrow> d)\<rparr>]\<rparr>)"

definition build_content :: "playlist \<Rightarrow> credentials \<Rightarrow> track list \<Rightarrow> content" where
  "build_content pl creds tracks =
     \<lparr>c_title = name pl, c_activity = ''yoto_Player'',
      c_chapters = map mk_chapter (enumerate 0 tracks),
      c_onlineOnly = False, c_version = ''1'',
      c_cover = ''https://cdn.yoto.io/myo-cover/star_grapefruit.gif'',
      c_userId = userId creds,
      c_cardId = (if truthy_str (yoto_card_id pl) then yoto_card_id pl else None)\<rparr>"

text \<open>\<open>!s.file_path || !fs.existsSync(s.file_path)\<close>\<close>

definition not_downloaded :: "env \<Rightarrow> song \<Rightarrow> bool" where
  "not_downloaded ev s =
     (case song_file_path s of
        None \<Rightarrow> True
      | Some p \<Rightarrow> p = [] \<or> \<not> existsSync ev p)"

text \<open>\<open>newCardId !== playlist.yoto_card_id\<close>\<close>

definition differs :: "jsval \<Rightarrow> string option \<Rightarrow> bool" where
  "differs v stored = (case stored of None \<Rightarrow> True | Some c \<Rightarrow> v \<noteq> JStr c)"

text \<open>
  The second half of the \<open>try\<close> block: build the manifest from the uploaded tracks, post
  it, store the card id, write the terminal event.  The first component of the result is
  the exception that leaves the block (\<open>None\<close> when it ends by itself or by \<open>return\<close>).
\<close>

definition create_card ::
  "env \<Rightarrow> server_state \<Rightarrow> credentials \<Rightarrow> string \<Rightarrow> playlist \<Rightarrow> track list
     \<Rightarrow> (string \<times> error) list \<Rightarrow> effect list \<Rightarrow> error option \<times> effect list \<times> server_state" where
  "create_card ev st creds playlistId pl tracks errors tr1 =
     (let isUpdate = truthy_str (yoto_card_id pl);
          tr2 = sendEvent (Log (if isUpdate then UpdatingCard else CreatingCard)) tr1;
          cnt = build_content pl creds tracks;
          tr3 = sendEvent (Log (Sending cnt)) tr2
      in
     (case fetch ev (PostContent (accessToken creds) cnt) tr3 of
        (Inl e, tr4) \<Rightarrow> (Some e, tr4, st)
      | (Inr persistResponse, tr4) \<Rightarrow>
     if \<not> ok persistResponse
     then (None,
           sendEvent (Error (FailedToCreateCard (status persistResponse) (body_text persistResponse)))
             (sendEvent (Log (ErrorResponse (body_text persistResponse))) tr4) @ [End],
           st)
     else
     (case json persistResponse of
        None \<Rightarrow> (Some JsonParseError, tr4, st)
      | Some cardData \<Rightarrow>
     if nullish cardData then (Some TypeError, tr4, st)
     else
     (let newCardId = opt_get (get cardData ''card'') ''cardId'';
          finish = (\<lambda>tr5 st5.
            (None,
             sendEvent (Done cardData (length tracks)
                          (if length errors > 0 then Some errors else None)) tr5 @ [End],
             st5))
      in
     if truthy newCardId \<and> differs newCardId (yoto_card_id pl)
     then (case db_bind ev newCardId of
             None \<Rightarrow> (Some DbBindError, tr4, st)
           | Some c \<Rightarrow>
               finish (sendEvent (Log (SavedCardId newCardId)) tr4)
                 (st\<lparr>playlists := (playlists st)(playlistId \<mapsto> pl\<lparr>yoto_card_id := Some c\<rparr>)\<rparr>))
     else finish tr4 st))))"

text \<open>The body of the \<open>try\<close> block: the upload loop, then the card.\<close>

definition publish_try ::
  "env \<Rightarrow> server_state \<Rightarrow> credentials \<Rightarrow> string \<Rightarrow> playlist \<Rightarrow> song list
     \<Rightarrow> error option \<times> effect list \<times> server_state" where
  "publish_try ev st creds playlistId pl songs =
     (case upload_loop ev creds songs 0 [] [] [] of
        (tracks, errors, tr1) \<Rightarrow>
          if length tracks = 0
          then (None, sendEvent (Error (AllUploadsFailed errors)) tr1 @ [End], st)
          else create_card ev st creds playlistId pl tracks errors tr1)"

text \<open>
  \<open>GET /upload-playlist/:playlistId/stream\<close>: everything the run does, in order, and the
  state it leaves.
\<close>

definition publish :: "env \<Rightarrow> server_state \<Rightarrow> string \<Rightarrow> effect list \<times> server_state" where
  "publish ev st playlistId =
     (case getStoredCredentials st of
        None \<Rightarrow> (sendEvent (Error NotConnected) [] @ [End], st)
      | Some creds \<Rightarrow>
     (case playlists st playlistId of
        None \<Rightarrow> (sendEvent (Error PlaylistNotFound) [] @ [End], st)
      | Some pl \<Rightarrow>
     (let songs = playlist_songs st playlistId;
          notDownloaded = filter (not_downloaded ev) songs
      in
     if length notDownloaded > 0
     then (sendEvent (Error (SongsNotDownloaded (map song_title notDownloaded))) [] @ [End], st)
     else
     (case publish_try ev st creds playlistId pl songs of
        (None, tr, st') \<Rightarrow> (tr, st')
      | (Some e, tr, st') \<Rightarrow> (sendEvent (Error (Uncaught e)) tr @ [End], st')))))"

subsection \<open>Observations on a run\<close>

text \<open>
  The results of the successive \<open>uploadAudioToYoto\<close> calls of the loop, from index \<open>i\<close> on:
  the same recursion as \<open>upload_loop\<close>, keeping the results instead of the arrays.
\<close>

function outcomes :: "env \<Rightarrow> credentials \<Rightarrow> song list \<Rightarrow> nat \<Rightarrow> effect list \<Rightarrow> (error + jsval) list" where
  "outcomes ev creds songs i tr =
     (if i < length songs then
        (let sng = songs ! i;
             tr1 = sendEvent (UploadStart (i + 1) (length songs) (song_title sng)) tr
         in case uploadAudioToYoto ev (song_file_path sng) (accessToken creds)
                   (\<lambda>msg. sendEvent (Log msg)) tr1 of
              (Inr result, tr2) \<Rightarrow>
                Inr result #
                outcomes ev creds songs (i + 1)
                  (sendEvent (UploadComplete (i + 1) (length songs) (song_title sng)) tr2)
            | (Inl err, tr2) \<Rightarrow>
                Inl err #
                outcomes ev creds songs (i + 1)
                  (sendEvent (UploadError (i + 1) (length songs) (song_title sng) err) tr2))
      else [])"
  by pat_completeness auto
termination
  by (relation "measure (\<lambda>(ev, creds, songs, i, tr). length songs - i)") auto

declare outcomes.simps [simp del]

text \<open>The tracks and the error entries that a list of results, for songs \<open>i, i+1, ...\<close>, gives.\<close>

fun tracks_of :: "song list \<Rightarrow> nat \<Rightarrow> (error + jsval) list \<Rightarrow> track list" where
  "tracks_of songs i [] = []"
| "tracks_of songs i (Inr k # rs) =
     \<lparr>track_title = song_title (songs ! i), trackNumber = i + 1, track_key = k,
      track_duration = song_duration (songs ! i), track_format = ''mp3''\<rparr>
     # tracks_of songs (i + 1) rs"
| "tracks_of songs i (Inl e # rs) = tracks_of songs (i + 1) rs"

fun errors_of :: "song list \<Rightarrow> nat \<Rightarrow> (error + jsval) list \<Rightarrow> (string \<times> error) list" where
  "errors_of songs i [] = []"
| "errors_of songs i (Inr k # rs) = errors_of songs (i + 1) rs"
| "errors_of songs i (Inl e # rs) = (song_title (songs ! i), e) # errors_of songs (i + 1) rs"

fun is_terminal :: "event \<Rightarrow> bool" where
  "is_terminal (Error f) = True"
| "is_terminal (Done c n es) = True"
| "is_terminal e = False"

text \<open>An effect that neither ends the response nor writes a terminal event.\<close>

fun non_terminal :: "effect \<Rightarrow> bool" where
  "non_terminal End = False"
| "non_terminal (Write e) = (\<not> is_terminal e)"
| "non_terminal e = True"

fun is_put :: "effect \<Rightarrow> bool" where
  "is_put (Net (PutS3 u b)) = True"
| "is_put e = False"

fun is_post_content :: "effect \<Rightarrow> bool" where
  "is_post_content (Net (PostContent t c)) = True"
| "is_post_content e = False"

fun is_net :: "effect \<Rightarrow> bool" where
  "is_net (Net r) = True"
| "is_net e = False"

fun is_log_write :: "effect \<Rightarrow> bool" where
  "is_log_write (Write (Log m)) = True"
| "is_log_write e = False"

text \<open>The waits and the status requests of the polling loop.\<close>

fun is_polling :: "effect \<Rightarrow> bool" where
  "is_polling (Sleep n) = True"
| "is_polling (Net (GetTranscoded t u)) = True"
| "is_polling e = False"

text \<open>One round of polling: wait two seconds, then ask for the status.\<close>

definition poll_round :: "string \<Rightarrow> jsval \<Rightarrow> effect list" where
  "poll_round token uploadId = [Sleep 2000, Net (GetTranscoded token uploadId)]"

text \<open>What steps 1 and 2 of an upload may do: log lines, the slot request, the transfer.\<close>

fun is_prelude :: "effect \<Rightarrow> bool" where
  "is_prelude (Write (Log m)) = True"
| "is_prelude (Net (GetUploadUrl t s f)) = True"
| "is_prelude (Net (PutS3 u b)) = True"
| "is_prelude e = False"

text \<open>What the upload loop may do: anything but end the response, write a terminal
  event or post a manifest.\<close>

fun is_progress :: "effect \<Rightarrow> bool" where
  "is_progress End = False"
| "is_progress (Write e) = (\<not> is_terminal e)"
| "is_progress (Net (PostContent t c)) = False"
| "is_progress e = True"

text \<open>
  A status body reports completion with a key: the test the polling loop makes on a body
  that is not null.
\<close>

definition reports_completion :: "jsval \<Rightarrow> bool" where
  "reports_completion statusData =
     (let transcodeInfo =
            js_or (js_or (get statusData ''transcode'') (get statusData ''transcoded'')) statusData;
          progress = get transcodeInfo ''progress''
      in (opt_get progress ''phase'' = JStr ''complete''
          \<or> truthy (get transcodeInfo ''transcodedAt''))
         \<and> truthy (js_or (get transcodeInfo ''transcodedSha256'') (get transcodeInfo ''key'')))"

text \<open>
  An answer to a status request after which the loop goes on to the next attempt: a
  response that is not 2xx, or a 2xx response whose body is JSON, is not null, and does
  not report completion with a key.
\<close>

fun keeps_pending :: "error + response \<Rightarrow> bool" where
  "keeps_pending (Inl e) = False"
| "keeps_pending (Inr resp) =
     (if ok resp
      then (case json resp of
              None \<Rightarrow> False
            | Some statusData \<Rightarrow> \<not> nullish statusData \<and> \<not> reports_completion statusData)
      else True)"

text \<open>The two log lines that precede the posting of a manifest.\<close>

definition announce :: "playlist \<Rightarrow> content \<Rightarrow> effect list" where
  "announce pl cnt =
     [Write (Log (if truthy_str (yoto_card_id pl) then UpdatingCard else CreatingCard)),
      Write (Log (Sending cnt))]"

text \<open>
  The remote accepts the manifest posted after history \<open>tr\<close>: it answers 2xx with a JSON
  body \<open>cardData\<close> that is not null, and the card id in it, if it is a new one, can be
  stored.
\<close>

definition accepted :: "env \<Rightarrow> playlist \<Rightarrow> effect list \<Rightarrow> request \<Rightarrow> jsval \<Rightarrow> bool" where
  "accepted ev pl tr rq cardData =
     (case remote ev tr rq of
        Inl e \<Rightarrow> False
      | Inr resp \<Rightarrow>
          ok resp \<and> json resp = Some cardData \<and> \<not> nullish cardData \<and>
          (truthy (opt_get (get cardData ''card'') ''cardId'')
             \<and> differs (opt_get (get cardData ''card'') ''cardId'') (yoto_card_id pl)
           \<longrightarrow> db_bind ev (opt_get (get cardData ''card'') ''cardId'') \<noteq> None))"


section \<open>Concrete inputs\<close>

text \<open>A fresh installation, and the same after a device code was issued at time 0.\<close>

definition fresh_state :: server_state where
  "fresh_state = \<lparr>settings = Map.empty, yotoClient = None, deviceCodeSessions = Map.empty,
                  playlists = Map.empty, playlist_songs = (\<lambda>p. [])\<rparr>"

definition example_device_auth :: device_auth where
  "example_device_auth = \<lparr>device_code = ''dc'', user_code = ''ABCD'', verification_uri = ''u'',
      verification_uri_complete = ''uc'', expires_in = 300, da_interval = 5\<rparr>"

definition issued_state :: server_state where
  "issued_state = snd (auth_device_code (Inr example_device_auth) 0 fresh_state)"


text \<open>
  A remote that hands out an upload slot for every file (without a transfer target for the
  content \<open>c.mp3\<close>, which it already holds), refuses the bytes of \<open>b.mp3\<close>, reports every
  transcode as complete at the first poll, and accepts every manifest.
\<close>

definition example_remote :: "effect list \<Rightarrow> request \<Rightarrow> error + response" where
  "example_remote tr rq =
     (case rq of
        GetUploadUrl tok sha fn \<Rightarrow>
          Inr \<lparr>status = 200, body_text = [],
               json = Some (JObj [(''upload'',
                        JObj [(''uploadId'', JStr sha),
                              (''uploadUrl'', if sha = ''c.mp3'' then JNull else JStr ''s3'')])])\<rparr>
      | PutS3 url bytes \<Rightarrow>
          Inr \<lparr>status = (if bytes = ''b.mp3'' then 500 else 200), body_text = [], json = None\<rparr>
      | GetTranscoded tok uid \<Rightarrow>
          Inr \<lparr>status = 200, body_text = [],
               json = Some (JObj [(''transcode'',
                        JObj [(''transcodedSha256'', uid), (''transcodedAt'', JStr ''now'')])])\<rparr>
      | PostContent tok c \<Rightarrow>
          Inr \<lparr>status = 200, body_text = [],
               json = Some (JObj [(''card'', JObj [(''cardId'', JStr ''card1'')])])\<rparr>)"

text \<open>Files whose content is their own name, hashed and named by the identity.\<close>

definition example_env :: env where
  "example_env = \<lparr>readFileSync = (\<lambda>p. Some p), existsSync = (\<lambda>p. True), sha256 = (\<lambda>b. b),
                   basename = (\<lambda>p. p), remote = example_remote,
                   db_bind = (\<lambda>v. case v of JStr s \<Rightarrow> Some s | _ \<Rightarrow> None)\<rparr>"

text \<open>The same, with a transcoder that answers every status poll with 503.\<close>

definition stalled_env :: env where
  "stalled_env = example_env\<lparr>remote := (\<lambda>tr rq.
      case rq of
        GetTranscoded tok uid \<Rightarrow> Inr \<lparr>status = 503, body_text = [], json = None\<rparr>
      | _ \<Rightarrow> example_remote tr rq)\<rparr>"

text \<open>The same, with a transcoder that answers every status poll with 200 and the body \<open>null\<close>.\<close>

definition null_env :: env where
  "null_env = example_env\<lparr>remote := (\<lambda>tr rq.
      case rq of
        GetTranscoded tok uid \<Rightarrow> Inr \<lparr>status = 200, body_text = ''null'', json = Some JNull\<rparr>
      | _ \<Rightarrow> example_remote tr rq)\<rparr>"

definition example_songs :: "song list" where
  "example_songs = [\<lparr>song_title = ''A'', song_file_path = Some ''a.mp3'', song_duration = Some 10\<rparr>,
                    \<lparr>song_title = ''B'', song_file_path = Some ''b.mp3'', song_duration = None\<rparr>,
                    \<lparr>song_title = ''C'', song_file_path = Some ''c.mp3'', song_duration = Some 30\<rparr>]"

definition example_creds :: credentials where
  "example_creds = \<lparr>accessToken = ''at'', refreshToken = ''rt'', userId = None\<rparr>"

text \<open>A logged-in installation with the three-song playlist \<open>p1\<close> and the one-song playlist \<open>p2\<close>.\<close>

definition example_state :: server_state where
  "example_state = \<lparr>settings = [''yoto_access_token'' \<mapsto> Some ''at'',
                                   ''yoto_refresh_token'' \<mapsto> Some ''rt''],
      yotoClient = None, deviceCodeSessions = Map.empty,
      playlists = [''p1'' \<mapsto> \<lparr>name = ''Mix'', yoto_card_id = None\<rparr>,
                   ''p2'' \<mapsto> \<lparr>name = ''Broken'', yoto_card_id = None\<rparr>],
      playlist_songs = (\<lambda>p. if p = ''p1'' then example_songs
                              else if p = ''p2'' then [example_songs ! 1] else [])\<rparr>"

section \<open>Credential store\<close>

lemma like_yoto_keys [simp]:
  "like_yoto ''yoto_access_token''" "like_yoto ''yoto_refresh_token''" "like_yoto ''yoto_user_id''"
  by simp_all








text \<open>
  Claim C9.  In the state that logout leaves, a publish call writes the not-connected error
  event, ends the response, and does nothing else: no network request of any kind is
  issued, and the state is unchanged.
\<close>

theorem publish_after_logout:
  "publish ev (snd (auth_logout st)) playlistId
     = ([Write (Error NotConnected), End], snd (auth_logout st))
   \<and> filter is_net (fst (publish ev (snd (auth_logout st)) playlistId)) = []
   \<and> getStoredCredentials (snd (auth_logout st)) = None"
  by (simp add: publish_def auth_logout_def clearCredentials_def getStoredCredentials_def
        sendEvent_def)

theorem publish_after_logout_witness:
  "getStoredCredentials example_state \<noteq> None
   \<and> fst (publish example_env (snd (auth_logout example_state)) ''p1'')
       = [Write (Error NotConnected), End]
   \<and> filter is_net (fst (publish example_env (snd (auth_logout example_state)) ''p1'')) = []"
  using publish_after_logout [of example_env example_state "''p1''"]
  by (simp add: getStoredCredentials_def example_state_def)

section \<open>Device auth flow\<close>

lemma session_get_delete: "session_get (session_delete st d) d = None"
  by (cases d) simp_all

lemma session_get_save [simp]: "session_get (saveCredentials st a r u) d = session_get st d"
  by (cases d) (simp_all add: saveCredentials_def Let_def)

text \<open>
  Claim C10.  A poll request that carries a device code for which the session table has no
  entry is answered with the invalid-session error: the authorization server is not
  called and the state is unchanged.  After a poll that ended in success or in a terminal
  failure, every further poll of the same device code is answered that way.  (A request
  without a device code is turned away before the table is consulted, also without a
  call.)
\<close>

theorem poll_without_session:
  "(truthy deviceCode \<and> session_get st deviceCode = None \<longrightarrow>
      auth_poll lib dec st deviceCode = (Some (Reply 400 InvalidSession), [], st))
   \<and> (\<not> truthy deviceCode \<longrightarrow>
      auth_poll lib dec st deviceCode = (Some (Reply 400 DeviceCodeRequired), [], st))
   \<and> (truthy deviceCode \<and> session_get st deviceCode = Some sess
        \<and> (lib deviceCode (interval sess) = Success tk
            \<or> lib deviceCode (interval sess) = Rejects ds msg)
      \<longrightarrow> (\<forall>lib'. auth_poll lib' dec (snd (snd (auth_poll lib dec st deviceCode))) deviceCode =
            (Some (Reply 400 InvalidSession), [], snd (snd (auth_poll lib dec st deviceCode)))))"
  by (auto simp: auth_poll_def Let_def session_get_delete)

theorem poll_without_session_witness:
  "session_get fresh_state (JStr ''dc'') = None
   \<and> auth_poll (\<lambda>d i. Pending) (\<lambda>t. None) fresh_state (JStr ''dc'')
       = (Some (Reply 400 InvalidSession), [], fresh_state)
   \<and> auth_poll (\<lambda>d i. Pending) (\<lambda>t. None) issued_state (JStr [])
       = (Some (Reply 400 DeviceCodeRequired), [], issued_state)
   \<and> session_get issued_state (JStr ''dc'') \<noteq> None
   \<and> auth_poll (\<lambda>d i. Pending) (\<lambda>t. None)
        (snd (snd (auth_poll (\<lambda>d i. Rejects None ''access_denied'') (\<lambda>t. None) issued_state (JStr ''dc''))))
        (JStr ''dc'')
       = (Some (Reply 400 InvalidSession), [],
          snd (snd (auth_poll (\<lambda>d i. Rejects None ''access_denied'') (\<lambda>t. None) issued_state (JStr ''dc''))))"
proof -
  have a: "session_get fresh_state (JStr ''dc'') = None"
    by (simp add: fresh_state_def)
  have b: "session_get issued_state (JStr ''dc'')
             = Some \<lparr>createdAt = 0, expiresIn = 300, interval = 5000\<rparr>"
    by (simp add: issued_state_def auth_device_code_def fresh_state_def example_device_auth_def)
  from poll_without_session [of "JStr ''dc''" fresh_state "\<lambda>d i. Pending" "\<lambda>t. None"] a
  have c: "auth_poll (\<lambda>d i. Pending) (\<lambda>t. None) fresh_state (JStr ''dc'')
             = (Some (Reply 400 InvalidSession), [], fresh_state)"
    by simp
  from poll_without_session [of "JStr []" issued_state "\<lambda>d i. Pending" "\<lambda>t. None"]
  have d: "auth_poll (\<lambda>d i. Pending) (\<lambda>t. None) issued_state (JStr [])
             = (Some (Reply 400 DeviceCodeRequired), [], issued_state)"
    by simp
  from poll_without_session [of "JStr ''dc''" issued_state
         "\<lambda>d i. Rejects None ''access_denied''" "\<lambda>t. None"
         "\<lparr>createdAt = 0, expiresIn = 300, interval = 5000\<rparr>" _ None "''access_denied''"] b
  have e: "\<forall>lib'. auth_poll lib' (\<lambda>t. None)
        (snd (snd (auth_poll (\<lambda>d i. Rejects None ''access_denied'') (\<lambda>t. None) issued_state (JStr ''dc''))))
        (JStr ''dc'')
       = (Some (Reply 400 InvalidSession), [],
          snd (snd (auth_poll (\<lambda>d i. Rejects None ''access_denied'') (\<lambda>t. None) issued_state (JStr ''dc''))))"
    by simp
  from a b c d e show ?thesis by simp
qed

text \<open>
  Claim C6.  A session issued with a 5 second interval is polled three times; the
  authorization server answers \<open>slow_down\<close> with 10000 ms, then \<open>pending\<close> twice.  The route
  stores 10000 ms in the session, but the browser loop waits 10000 ms only once and then
  goes back to the 5000 ms it was started with.
\<close>

theorem slow_down_then_pending_waits:
  "fst (pollYotoLogin [\<lambda>d i. SlowDown 10000, \<lambda>d i. Pending, \<lambda>d i. Pending] (\<lambda>t. None)
          issued_state (JStr ''dc'') 5) = [10000, 5000, 5000]
   \<and> map_option interval (session_get (snd (pollYotoLogin
          [\<lambda>d i. SlowDown 10000, \<lambda>d i. Pending, \<lambda>d i. Pending]
          (\<lambda>t. None) issued_state (JStr ''dc'') 5)) (JStr ''dc'')) = Some 10000"
  by (simp add: issued_state_def auth_device_code_def fresh_state_def example_device_auth_def
        auth_poll_def Let_def)


section \<open>The upload client\<close>

lemma poll_body_ext:
  assumes "poll_body ev token uid (\<lambda>msg. sendEvent (Log msg)) attempt tr = (oc, tr')"
  shows "\<exists>effs. tr' = tr @ Sleep 2000 # Net (GetTranscoded token uid) # effs
                \<and> list_all is_log_write effs"
  using assms
  by (auto simp: poll_body_def fetch_def sendEvent_def Let_def
           split: sum.splits option.splits if_splits)

lemma poll_loop_shape:
  "poll_loop ev token uid (\<lambda>msg. sendEvent (Log msg)) attempt tr = (r, tr') \<Longrightarrow>
     \<exists>effs n. tr' = tr @ effs \<and> n \<le> 30 - attempt
        \<and> filter is_polling effs = concat (replicate n (poll_round token uid))
        \<and> list_all (\<lambda>e. is_log_write e \<or> is_polling e) effs"
proof (induction ev token uid "\<lambda>msg. sendEvent (Log msg)" attempt tr arbitrary: r tr'
       rule: poll_loop.induct)
  case (1 ev token uid attempt tr)
  show ?case
  proof (cases "attempt < 30")
    case False
    with "1.prems" have "tr' = tr" by (simp add: poll_loop.simps)
    then show ?thesis by (intro exI [of _ "[]"] exI [of _ 0]) simp
  next
    case True
    obtain oc t1 where body: "poll_body ev token uid (\<lambda>msg. sendEvent (Log msg)) attempt tr = (oc, t1)"
      by (cases "poll_body ev token uid (\<lambda>msg. sendEvent (Log msg)) attempt tr")
    from poll_body_ext [OF body] obtain logs where
      t1: "t1 = tr @ Sleep 2000 # Net (GetTranscoded token uid) # logs" and
      logs: "list_all is_log_write logs" by blast
    have flt: "filter is_polling logs = []"
      using logs by (induction logs) (auto elim: is_log_write.elims)
    have one: "filter is_polling (Sleep 2000 # Net (GetTranscoded token uid) # logs) = poll_round token uid"
      using flt by (simp add: poll_round_def)
    have all1: "list_all (\<lambda>e. is_log_write e \<or> is_polling e)
                  (Sleep 2000 # Net (GetTranscoded token uid) # logs)"
      using logs by (simp add: list_all_iff)
    show ?thesis
    proof (cases oc)
      case Continue
      with "1.prems" True body
      have rec: "poll_loop ev token uid (\<lambda>msg. sendEvent (Log msg)) (attempt + 1) t1 = (r, tr')"
        by (simp add: poll_loop.simps [of ev token uid _ attempt tr])
      from "1.hyps" [OF True body [symmetric] Continue rec] obtain effs n where
        ih: "tr' = t1 @ effs" "n \<le> 30 - (attempt + 1)"
            "filter is_polling effs = concat (replicate n (poll_round token uid))"
            "list_all (\<lambda>e. is_log_write e \<or> is_polling e) effs" by blast
      show ?thesis
        using ih t1 one all1 True
        by (intro exI [of _ "Sleep 2000 # Net (GetTranscoded token uid) # logs @ effs"]
                  exI [of _ "Suc n"]) (simp add: poll_round_def)
    next
      case (Break k)
      with "1.prems" True body have "tr' = t1"
        by (simp add: poll_loop.simps [of ev token uid _ attempt tr])
      then show ?thesis using t1 one all1 True
        by (intro exI [of _ "Sleep 2000 # Net (GetTranscoded token uid) # logs"]
                  exI [of _ "Suc 0"]) (simp add: poll_round_def)
    next
      case (Throw e)
      with "1.prems" True body have "tr' = t1"
        by (simp add: poll_loop.simps [of ev token uid _ attempt tr])
      then show ?thesis using t1 one all1 True
        by (intro exI [of _ "Sleep 2000 # Net (GetTranscoded token uid) # logs"]
                  exI [of _ "Suc 0"]) (simp add: poll_round_def)
    qed
  qed
qed

lemma poll_loop_never:
  assumes never: "\<forall>a t. fst (poll_body ev token uid (\<lambda>msg. sendEvent (Log msg)) a t) = Continue"
  shows "poll_loop ev token uid (\<lambda>msg. sendEvent (Log msg)) attempt tr = (r, tr') \<Longrightarrow>
     r = Inr None \<and> (\<exists>effs. tr' = tr @ effs
        \<and> filter is_polling effs = concat (replicate (30 - attempt) (poll_round token uid)))"
  using never
proof (induction ev token uid "\<lambda>msg. sendEvent (Log msg)" attempt tr arbitrary: r tr'
       rule: poll_loop.induct)
  case (1 ev token uid attempt tr)
  show ?case
  proof (cases "attempt < 30")
    case False
    with "1.prems" show ?thesis by (simp add: poll_loop.simps)
  next
    case True
    obtain oc t1 where body: "poll_body ev token uid (\<lambda>msg. sendEvent (Log msg)) attempt tr = (oc, t1)"
      by (cases "poll_body ev token uid (\<lambda>msg. sendEvent (Log msg)) attempt tr")
    from "1.prems"(2) body have oc: "oc = Continue"
      by (metis fst_conv)
    from poll_body_ext [OF body] obtain logs where
      t1: "t1 = tr @ Sleep 2000 # Net (GetTranscoded token uid) # logs" and
      logs: "list_all is_log_write logs" by blast
    have flt: "filter is_polling logs = []"
      using logs by (induction logs) (auto elim: is_log_write.elims)
    from "1.prems"(1) True body oc
    have rec: "poll_loop ev token uid (\<lambda>msg. sendEvent (Log msg)) (attempt + 1) t1 = (r, tr')"
      by (simp add: poll_loop.simps [of ev token uid _ attempt tr])
    from "1.hyps" [OF True body [symmetric] oc rec "1.prems"(2)] obtain effs where
      ih: "r = Inr None" "tr' = t1 @ effs"
          "filter is_polling effs = concat (replicate (30 - (attempt + 1)) (poll_round token uid))"
      by blast
    have cnt: "30 - attempt = Suc (30 - (attempt + 1))" using True by simp
    show ?thesis
      using ih t1 flt
      by (intro conjI exI [of _ "Sleep 2000 # Net (GetTranscoded token uid) # logs @ effs"])
         (simp_all add: poll_round_def cnt)
  qed
qed


lemma get_upload_url_ext:
  "get_upload_url ev token path buf (\<lambda>msg. sendEvent (Log msg)) tr = (r, tr') \<Longrightarrow>
     tr' = tr @ [Write (Log GettingUploadUrl),
                 Net (GetUploadUrl token (sha256 ev buf) (basename ev path))]"
  by (auto simp: get_upload_url_def fetch_def sendEvent_def Let_def
           split: sum.splits option.splits if_splits)

lemma upload_to_s3_ext:
  "upload_to_s3 ev url buf (\<lambda>msg. sendEvent (Log msg)) tr = (r, tr') \<Longrightarrow>
     (truthy url \<and> tr' = tr @ [Write (Log UploadingToS3), Net (PutS3 url buf)])
     \<or> (\<not> truthy url \<and> r = None \<and> tr' = tr @ [Write (Log FileAlreadyUploaded)])"
  by (auto simp: upload_to_s3_def fetch_def sendEvent_def
           split: sum.splits if_splits)

text \<open>What the function makes of the result of its polling loop.\<close>

lemma upload_cases:
  assumes up: "uploadAudioToYoto ev fp token (\<lambda>msg. sendEvent (Log msg)) tr = (r, tr')"
  obtains (early) pre e where "r = Inl e" "tr' = tr @ pre" "list_all is_prelude pre"
  | (polled) pre uid r3 where "list_all is_prelude pre"
      "poll_loop ev token uid (\<lambda>msg. sendEvent (Log msg)) 0 (tr @ pre) = (r3, tr')"
      "r = (case r3 of Inl e \<Rightarrow> Inl e | Inr None \<Rightarrow> Inl TranscodingTimedOut
            | Inr (Some k) \<Rightarrow> Inr k)"
proof (cases fp)
  case None
  with up have "r = Inl TypeError" "tr' = tr @ []" by (simp_all add: uploadAudioToYoto_def)
  then show ?thesis using early [of TypeError "[]"] by simp
next
  case (Some path)
  show ?thesis
  proof (cases "readFileSync ev path")
    case None
    with up Some have "r = Inl ReadFileError" "tr' = tr @ []"
      by (simp_all add: uploadAudioToYoto_def)
    then show ?thesis using early [of ReadFileError "[]"] by simp
  next
    case buf: (Some buf)
    obtain r1 t1 where s1: "get_upload_url ev token path buf (\<lambda>msg. sendEvent (Log msg)) tr = (r1, t1)"
      by (cases "get_upload_url ev token path buf (\<lambda>msg. sendEvent (Log msg)) tr")
    note t1 = get_upload_url_ext [OF s1]
    show ?thesis
    proof (cases r1)
      case (Inl e)
      with up Some buf s1 have "r = Inl e" "tr' = t1" by (simp_all add: uploadAudioToYoto_def)
      then show ?thesis using early [of e] t1 by simp
    next
      case (Inr p)
      obtain url uid where p: "p = (url, uid)" by (cases p)
      obtain r2 t2 where s2: "upload_to_s3 ev url buf (\<lambda>msg. sendEvent (Log msg)) t1 = (r2, t2)"
        by (cases "upload_to_s3 ev url buf (\<lambda>msg. sendEvent (Log msg)) t1")
      from upload_to_s3_ext [OF s2] t1 obtain x where
        t2: "t2 = tr @ x" and x: "list_all is_prelude x"
        by auto
      show ?thesis
      proof (cases r2)
        case (Some e)
        with up \<open>fp = Some path\<close> buf s1 Inr p s2 have "r = Inl e" "tr' = t2"
          by (simp_all add: uploadAudioToYoto_def)
        then show ?thesis using early [of e x] t2 x by simp
      next
        case None
        obtain r3 t3 where s3: "poll_loop ev token uid (\<lambda>msg. sendEvent (Log msg)) 0
                                  (sendEvent (Log WaitingForTranscoding) t2) = (r3, t3)"
          by (cases "poll_loop ev token uid (\<lambda>msg. sendEvent (Log msg)) 0
                       (sendEvent (Log WaitingForTranscoding) t2)")
        have pre: "sendEvent (Log WaitingForTranscoding) t2 = tr @ (x @ [Write (Log WaitingForTranscoding)])"
          using t2 by (simp add: sendEvent_def)
        from up \<open>fp = Some path\<close> buf s1 Inr p s2 None s3
        have res: "tr' = t3" "r = (case r3 of Inl e \<Rightarrow> Inl e | Inr None \<Rightarrow> Inl TranscodingTimedOut
            | Inr (Some k) \<Rightarrow> Inr k)"
          by (auto simp: uploadAudioToYoto_def split: sum.splits option.splits)
        show ?thesis
          using polled [of "x @ [Write (Log WaitingForTranscoding)]" uid r3] x s3 pre res
          by simp
      qed
    qed
  qed
qed

lemma upload_ext:
  assumes up: "uploadAudioToYoto ev fp token (\<lambda>msg. sendEvent (Log msg)) tr = (r, tr')"
  shows "\<exists>pre effs n uid. tr' = tr @ pre @ effs \<and> list_all is_prelude pre
           \<and> list_all (\<lambda>e. is_log_write e \<or> is_polling e) effs \<and> n \<le> 30
           \<and> filter is_polling effs = concat (replicate n (poll_round token uid))"
  using up
proof (cases rule: upload_cases)
  case (early pre e)
  then show ?thesis
    by (intro exI [of _ pre] exI [of _ "[]"] exI [of _ 0]) simp
next
  case (polled pre uid r3)
  from poll_loop_shape [OF polled(2)] obtain effs n where
    "tr' = (tr @ pre) @ effs" "n \<le> 30 - 0"
    "filter is_polling effs = concat (replicate n (poll_round token uid))"
    "list_all (\<lambda>e. is_log_write e \<or> is_polling e) effs" by blast
  with polled(1) show ?thesis
    by (intro exI [of _ pre] exI [of _ effs] exI [of _ n] exI [of _ uid]) simp
qed

lemma prelude_progress: "is_prelude e \<Longrightarrow> is_progress e"
  by (cases e rule: is_prelude.cases) simp_all

lemma polling_progress: "is_log_write e \<or> is_polling e \<Longrightarrow> is_progress e"
  by (cases e rule: is_polling.cases) (auto elim: is_log_write.elims)

lemma upload_progress:
  assumes up: "uploadAudioToYoto ev fp token (\<lambda>msg. sendEvent (Log msg)) tr = (r, tr')"
  shows "\<exists>effs. tr' = tr @ effs \<and> list_all is_progress effs"
proof -
  from upload_ext [OF up] obtain pre effs where
    "tr' = tr @ pre @ effs" "list_all is_prelude pre"
    "list_all (\<lambda>e. is_log_write e \<or> is_polling e) effs" by blast
  then show ?thesis
    by (intro exI [of _ "pre @ effs"])
       (auto simp: list_all_iff intro: prelude_progress polling_progress)
qed

lemma log_not_polling: "list_all is_log_write logs \<Longrightarrow> filter is_polling logs = []"
  by (induction logs) (auto elim: is_log_write.elims)

lemma prelude_not_polling: "list_all is_prelude pre \<Longrightarrow> filter is_polling pre = []"
  by (induction pre) (auto elim: is_prelude.elims)

lemma poll_body_pending:
  assumes "keeps_pending (remote ev (tr @ [Sleep 2000]) (GetTranscoded token uid))"
  shows "fst (poll_body ev token uid (\<lambda>msg. sendEvent (Log msg)) attempt tr) = Continue"
proof (cases "remote ev (tr @ [Sleep 2000]) (GetTranscoded token uid)")
  case (Inl e)
  with assms show ?thesis by simp
next
  case (Inr resp)
  show ?thesis
  proof (cases "ok resp")
    case False
    with Inr show ?thesis by (simp add: poll_body_def fetch_def)
  next
    case True
    with assms Inr obtain d where d: "json resp = Some d" "\<not> nullish d" "\<not> reports_completion d"
      by (auto split: option.splits)
    from d(3) show ?thesis
      using Inr True d(1,2)
      by (auto simp: poll_body_def fetch_def reports_completion_def Let_def)
  qed
qed

text \<open>
  Claim C7, amended.  Whatever the remote answers, the waits and the status requests of
  an upload are \<open>n \<le> 30\<close> rounds, each a wait of 2000 ms followed by one status request,
  all for one upload id, and there is no other wait; that the function returns at all is
  the totality of \<open>poll_loop\<close>, shown with its definition by a measure on the attempt
  counter.  When the upload reaches the polling step (the file is read, the slot request
  is answered with an upload id, the transfer succeeds or is skipped) and the remote
  answers every status request for that upload id with a response that is not 2xx, or
  with a 2xx response whose JSON body is not null and reports no completion with a key,
  the upload makes exactly 30 rounds and fails with the transcode-timeout error.
\<close>

theorem transcode_polling_rounds:
  "(\<exists>effs n uploadId.
       snd (uploadAudioToYoto ev fp token (\<lambda>msg. sendEvent (Log msg)) tr) = tr @ effs \<and> n \<le> 30
       \<and> filter is_polling effs = concat (replicate n (poll_round token uploadId)))
   \<and> (readFileSync ev path = Some buf
       \<and> remote ev (tr @ [Write (Log GettingUploadUrl)])
            (GetUploadUrl token (sha256 ev buf) (basename ev path)) = Inr resp
       \<and> ok resp \<and> json resp = Some d \<and> \<not> nullish d
       \<and> uid = opt_get (get d ''upload'') ''uploadId'' \<and> truthy uid
       \<and> url = opt_get (get d ''upload'') ''uploadUrl''
       \<and> (truthy url \<longrightarrow>
             remote ev (tr @ [Write (Log GettingUploadUrl),
                              Net (GetUploadUrl token (sha256 ev buf) (basename ev path)),
                              Write (Log UploadingToS3)])
               (PutS3 url buf) = Inr putResponse \<and> ok putResponse)
       \<and> (\<forall>h. keeps_pending (remote ev h (GetTranscoded token uid)))
      \<longrightarrow> (\<exists>effs. uploadAudioToYoto ev (Some path) token (\<lambda>msg. sendEvent (Log msg)) tr
                     = (Inl TranscodingTimedOut, tr @ effs)
                 \<and> filter is_polling effs = concat (replicate 30 (poll_round token uid))))"
proof (intro conjI impI)
  obtain r tr' where up: "uploadAudioToYoto ev fp token (\<lambda>msg. sendEvent (Log msg)) tr = (r, tr')"
    by (cases "uploadAudioToYoto ev fp token (\<lambda>msg. sendEvent (Log msg)) tr")
  from upload_ext [OF up] obtain pre effs n u where
    e: "tr' = tr @ pre @ effs" "list_all is_prelude pre" "n \<le> 30"
       "filter is_polling effs = concat (replicate n (poll_round token u))" by blast
  have "filter is_polling (pre @ effs) = concat (replicate n (poll_round token u))"
    using e(2,4) by (simp add: prelude_not_polling)
  with e(1,3) up
  show "\<exists>effs n uploadId.
       snd (uploadAudioToYoto ev fp token (\<lambda>msg. sendEvent (Log msg)) tr) = tr @ effs \<and> n \<le> 30
       \<and> filter is_polling effs = concat (replicate n (poll_round token uploadId))"
    by (intro exI [of _ "pre @ effs"] exI [of _ n] exI [of _ u]) simp
next
  assume h: "readFileSync ev path = Some buf
       \<and> remote ev (tr @ [Write (Log GettingUploadUrl)])
            (GetUploadUrl token (sha256 ev buf) (basename ev path)) = Inr resp
       \<and> ok resp \<and> json resp = Some d \<and> \<not> nullish d
       \<and> uid = opt_get (get d ''upload'') ''uploadId'' \<and> truthy uid
       \<and> url = opt_get (get d ''upload'') ''uploadUrl''
       \<and> (truthy url \<longrightarrow>
             remote ev (tr @ [Write (Log GettingUploadUrl),
                              Net (GetUploadUrl token (sha256 ev buf) (basename ev path)),
                              Write (Log UploadingToS3)])
               (PutS3 url buf) = Inr putResponse \<and> ok putResponse)
       \<and> (\<forall>h. keeps_pending (remote ev h (GetTranscoded token uid)))"
  define rq where "rq = GetUploadUrl token (sha256 ev buf) (basename ev path)"
  from h have rd: "readFileSync ev path = Some buf" by (elim conjE)
  from h have slot: "remote ev (tr @ [Write (Log GettingUploadUrl)]) rq = Inr resp"
    unfolding rq_def by (elim conjE)
  from h have ok: "ok resp" by (elim conjE)
  from h have js: "json resp = Some d" by (elim conjE)
  from h have nn: "\<not> nullish d" by (elim conjE)
  from h have uid: "uid = opt_get (get d ''upload'') ''uploadId''" by (elim conjE)
  from h have has_id: "truthy uid" by (elim conjE)
  from h have url: "url = opt_get (get d ''upload'') ''uploadUrl''" by (elim conjE)
  from h have put: "truthy url \<longrightarrow>
             remote ev (tr @ [Write (Log GettingUploadUrl), Net rq, Write (Log UploadingToS3)])
               (PutS3 url buf) = Inr putResponse \<and> ok putResponse"
    unfolding rq_def by (elim conjE)
  from h have never: "\<forall>h. keeps_pending (remote ev h (GetTranscoded token uid))"
    by (elim conjE)
  define t1 where "t1 = tr @ [Write (Log GettingUploadUrl), Net rq]"
  have s1: "get_upload_url ev token path buf (\<lambda>msg. sendEvent (Log msg)) tr = (Inr (url, uid), t1)"
    using slot ok js nn has_id
    by (simp add: get_upload_url_def fetch_def sendEvent_def Let_def rq_def t1_def url uid)
  obtain x where s2: "upload_to_s3 ev url buf (\<lambda>msg. sendEvent (Log msg)) t1 = (None, t1 @ x)"
    and x: "list_all is_prelude x"
  proof (cases "truthy url")
    case True
    with put have "remote ev (t1 @ [Write (Log UploadingToS3)]) (PutS3 url buf) = Inr putResponse" "ok putResponse"
      by (simp_all add: t1_def)
    with True have "upload_to_s3 ev url buf (\<lambda>msg. sendEvent (Log msg)) t1
             = (None, t1 @ [Write (Log UploadingToS3), Net (PutS3 url buf)])"
      by (simp add: upload_to_s3_def fetch_def sendEvent_def)
    then show ?thesis using that [of "[Write (Log UploadingToS3), Net (PutS3 url buf)]"] by simp
  next
    case False
    then have "upload_to_s3 ev url buf (\<lambda>msg. sendEvent (Log msg)) t1
             = (None, t1 @ [Write (Log FileAlreadyUploaded)])"
      by (simp add: upload_to_s3_def sendEvent_def)
    then show ?thesis using that [of "[Write (Log FileAlreadyUploaded)]"] by simp
  qed
  define t2 where "t2 = sendEvent (Log WaitingForTranscoding) (t1 @ x)"
  obtain r3 t3 where s3: "poll_loop ev token uid (\<lambda>msg. sendEvent (Log msg)) 0 t2 = (r3, t3)"
    by (cases "poll_loop ev token uid (\<lambda>msg. sendEvent (Log msg)) 0 t2")
  have nv: "\<forall>a t. fst (poll_body ev token uid (\<lambda>msg. sendEvent (Log msg)) a t) = Continue"
    using never by (auto intro: poll_body_pending)
  from poll_loop_never [OF nv s3] obtain effs where
    r3: "r3 = Inr None" and t3: "t3 = t2 @ effs"
    and rounds: "filter is_polling effs = concat (replicate (30 - 0) (poll_round token uid))"
    by blast
  have up: "uploadAudioToYoto ev (Some path) token (\<lambda>msg. sendEvent (Log msg)) tr
              = (Inl TranscodingTimedOut, t3)"
    using rd s1 s2 s3 r3 by (simp add: uploadAudioToYoto_def t2_def)
  define all where "all = [Write (Log GettingUploadUrl), Net rq] @ x @ [Write (Log WaitingForTranscoding)] @ effs"
  have t3': "t3 = tr @ all"
    by (simp add: t3 t2_def t1_def all_def sendEvent_def)
  have "filter is_polling all = concat (replicate 30 (poll_round token uid))"
    using rounds prelude_not_polling [OF x] by (simp add: all_def rq_def)
  with up t3'
  show "\<exists>effs. uploadAudioToYoto ev (Some path) token (\<lambda>msg. sendEvent (Log msg)) tr
                     = (Inl TranscodingTimedOut, tr @ effs)
                 \<and> filter is_polling effs = concat (replicate 30 (poll_round token uid))"
    by (intro exI [of _ all]) simp
qed

text \<open>
  Claim C7 as stated fails: a transcoder that answers every status request with 200 and
  the body \<open>null\<close> never reports completion, and the upload ends after one round with a
  TypeError, not after 30 rounds with the transcode-timeout error.
\<close>

theorem null_status_no_timeout:
  "fst (uploadAudioToYoto null_env (Some ''a.mp3'') ''at'' (\<lambda>msg. sendEvent (Log msg)) [])
     = Inl TypeError
   \<and> filter is_polling
        (snd (uploadAudioToYoto null_env (Some ''a.mp3'') ''at'' (\<lambda>msg. sendEvent (Log msg)) []))
      = poll_round ''at'' (JStr ''a.mp3'')"
  by code_simp

theorem transcode_polling_rounds_witness:
  "readFileSync stalled_env ''a.mp3'' = Some ''a.mp3''
   \<and> keeps_pending (remote stalled_env [] (GetTranscoded ''at'' (JStr ''a.mp3'')))
   \<and> (\<exists>effs. uploadAudioToYoto stalled_env (Some ''a.mp3'') ''at'' (\<lambda>msg. sendEvent (Log msg)) []
                = (Inl TranscodingTimedOut, [] @ effs)
            \<and> filter is_polling effs = concat (replicate 30 (poll_round ''at'' (JStr ''a.mp3''))))
   \<and> length (filter is_polling
        (snd (uploadAudioToYoto stalled_env (Some ''a.mp3'') ''at'' (\<lambda>msg. sendEvent (Log msg)) [])))
      = 60"
proof -
  define sd where "sd = JObj [(''upload'', JObj [(''uploadId'', JStr ''a.mp3''), (''uploadUrl'', JStr ''s3'')])]"
  define sr where "sr = \<lparr>status = 200, body_text = [], json = Some sd\<rparr>"
  define pr where "pr = \<lparr>status = 200, body_text = [], json = None\<rparr>"
  have h1: "readFileSync stalled_env ''a.mp3'' = Some ''a.mp3''"
    by (simp add: stalled_env_def example_env_def)
  have h2: "remote stalled_env ([] @ [Write (Log GettingUploadUrl)])
              (GetUploadUrl ''at'' (sha256 stalled_env ''a.mp3'') (basename stalled_env ''a.mp3''))
            = Inr sr"
    by (simp add: stalled_env_def example_env_def example_remote_def sr_def sd_def)
  have h3: "ok sr" "json sr = Some sd" "\<not> nullish sd" by (simp_all add: ok_def sr_def sd_def)
  have h4: "JStr ''a.mp3'' = opt_get (get sd ''upload'') ''uploadId''"
           "JStr ''s3'' = opt_get (get sd ''upload'') ''uploadUrl''"
    by (simp_all add: sd_def opt_get_def)
  have h5: "remote stalled_env ([] @ [Write (Log GettingUploadUrl),
                              Net (GetUploadUrl ''at'' (sha256 stalled_env ''a.mp3'')
                                     (basename stalled_env ''a.mp3'')),
                              Write (Log UploadingToS3)])
               (PutS3 (JStr ''s3'') ''a.mp3'') = Inr pr" "ok pr"
    by (simp_all add: stalled_env_def example_env_def example_remote_def pr_def ok_def)
  have h6: "\<forall>h. keeps_pending (remote stalled_env h (GetTranscoded ''at'' (JStr ''a.mp3'')))"
    by (simp add: stalled_env_def example_env_def ok_def)
  have b: "length (filter is_polling
        (snd (uploadAudioToYoto stalled_env (Some ''a.mp3'') ''at'' (\<lambda>msg. sendEvent (Log msg)) [])))
      = 60"
    by code_simp
  note inst = transcode_polling_rounds [where ev = stalled_env and tr = "[]" and token = "''at''"
      and path = "''a.mp3''" and buf = "''a.mp3''" and resp = sr and d = sd
      and uid = "JStr ''a.mp3''" and url = "JStr ''s3''" and putResponse = pr, THEN conjunct2, rule_format]
  have e: "\<exists>effs. uploadAudioToYoto stalled_env (Some ''a.mp3'') ''at'' (\<lambda>msg. sendEvent (Log msg)) []
                = (Inl TranscodingTimedOut, [] @ effs)
            \<and> filter is_polling effs = concat (replicate 30 (poll_round ''at'' (JStr ''a.mp3'')))"
    by (rule inst) (intro conjI impI h1 h2 h3 h4 h5 h6 truthy.simps [THEN iffD2]; simp)
  have k: "keeps_pending (remote stalled_env [] (GetTranscoded ''at'' (JStr ''a.mp3'')))"
    using h6 by blast
  show ?thesis
    by (intro conjI) (fact h1, fact k, fact e, fact b)
qed

section \<open>The upload loop\<close>

lemma upload_loop_progress:
  "upload_loop ev creds songs i tracks errors tr = (T, E, tr') \<Longrightarrow>
     \<exists>effs. tr' = tr @ effs \<and> list_all is_progress effs"
proof (induction ev creds songs i tracks errors tr arbitrary: T E tr' rule: upload_loop.induct)
  case (1 ev creds songs i tracks errors tr)
  show ?case
  proof (cases "i < length songs")
    case False
    with "1.prems" show ?thesis by (simp add: upload_loop.simps)
  next
    case True
    define sng where "sng = songs ! i"
    define tr1 where "tr1 = sendEvent (UploadStart (i + 1) (length songs) (song_title sng)) tr"
    obtain r tr2 where up: "uploadAudioToYoto ev (song_file_path sng) (accessToken creds)
                              (\<lambda>msg. sendEvent (Log msg)) tr1 = (r, tr2)"
      by (cases "uploadAudioToYoto ev (song_file_path sng) (accessToken creds)
                   (\<lambda>msg. sendEvent (Log msg)) tr1")
    from upload_progress [OF up] obtain effs where
      tr2: "tr2 = tr1 @ effs" and effs: "list_all is_progress effs" by blast
    show ?thesis
    proof (cases r)
      case (Inr result)
      with "1.prems" True up
      have rec: "upload_loop ev creds songs (i + 1)
                   (tracks @ [\<lparr>track_title = song_title sng, trackNumber = i + 1, track_key = result,
                               track_duration = song_duration sng, track_format = ''mp3''\<rparr>])
                   errors (sendEvent (UploadComplete (i + 1) (length songs) (song_title sng)) tr2)
                 = (T, E, tr')"
        by (simp add: upload_loop.simps [of ev creds songs i] sng_def tr1_def Let_def)
      from "1.IH"(2) [OF True sng_def tr1_def up [symmetric] Inr rec] obtain effs' where
        "tr' = sendEvent (UploadComplete (i + 1) (length songs) (song_title sng)) tr2 @ effs'"
        "list_all is_progress effs'" by blast
      with tr2 effs show ?thesis
        by (intro exI [of _ "Write (UploadStart (i + 1) (length songs) (song_title sng)) # effs
                 @ Write (UploadComplete (i + 1) (length songs) (song_title sng)) # effs'"])
           (simp add: tr1_def sendEvent_def)
    next
      case (Inl err)
      with "1.prems" True up
      have rec: "upload_loop ev creds songs (i + 1) tracks (errors @ [(song_title sng, err)])
                   (sendEvent (UploadError (i + 1) (length songs) (song_title sng) err) tr2)
                 = (T, E, tr')"
        by (simp add: upload_loop.simps [of ev creds songs i] sng_def tr1_def Let_def)
      from "1.IH"(1) [OF True sng_def tr1_def up [symmetric] Inl rec] obtain effs' where
        "tr' = sendEvent (UploadError (i + 1) (length songs) (song_title sng) err) tr2 @ effs'"
        "list_all is_progress effs'" by blast
      with tr2 effs show ?thesis
        by (intro exI [of _ "Write (UploadStart (i + 1) (length songs) (song_title sng)) # effs
                 @ Write (UploadError (i + 1) (length songs) (song_title sng) err) # effs'"])
           (simp add: tr1_def sendEvent_def)
    qed
  qed
qed

lemma upload_loop_outcomes:
  "upload_loop ev creds songs i tracks errors tr = (T, E, tr') \<Longrightarrow>
     T = tracks @ tracks_of songs i (outcomes ev creds songs i tr)
     \<and> E = errors @ errors_of songs i (outcomes ev creds songs i tr)"
proof (induction ev creds songs i tracks errors tr arbitrary: T E tr' rule: upload_loop.induct)
  case (1 ev creds songs i tracks errors tr)
  show ?case
  proof (cases "i < length songs")
    case False
    with "1.prems" show ?thesis by (simp add: upload_loop.simps outcomes.simps)
  next
    case True
    define sng where "sng = songs ! i"
    define tr1 where "tr1 = sendEvent (UploadStart (i + 1) (length songs) (song_title sng)) tr"
    obtain r tr2 where up: "uploadAudioToYoto ev (song_file_path sng) (accessToken creds)
                              (\<lambda>msg. sendEvent (Log msg)) tr1 = (r, tr2)"
      by (cases "uploadAudioToYoto ev (song_file_path sng) (accessToken creds)
                   (\<lambda>msg. sendEvent (Log msg)) tr1")
    show ?thesis
    proof (cases r)
      case (Inr result)
      with "1.prems" True up
      have rec: "upload_loop ev creds songs (i + 1)
                   (tracks @ [\<lparr>track_title = song_title sng, trackNumber = i + 1, track_key = result,
                               track_duration = song_duration sng, track_format = ''mp3''\<rparr>])
                   errors (sendEvent (UploadComplete (i + 1) (length songs) (song_title sng)) tr2)
                 = (T, E, tr')"
        by (simp add: upload_loop.simps [of ev creds songs i] sng_def tr1_def Let_def)
      have out: "outcomes ev creds songs i tr = Inr result #
                   outcomes ev creds songs (i + 1)
                     (sendEvent (UploadComplete (i + 1) (length songs) (song_title sng)) tr2)"
        using True up Inr
        by (simp add: outcomes.simps [of ev creds songs i] sng_def tr1_def Let_def)
      from "1.IH"(2) [OF True sng_def tr1_def up [symmetric] Inr rec] out
      show ?thesis by (simp add: sng_def)
    next
      case (Inl err)
      with "1.prems" True up
      have rec: "upload_loop ev creds songs (i + 1) tracks (errors @ [(song_title sng, err)])
                   (sendEvent (UploadError (i + 1) (length songs) (song_title sng) err) tr2)
                 = (T, E, tr')"
        by (simp add: upload_loop.simps [of ev creds songs i] sng_def tr1_def Let_def)
      have out: "outcomes ev creds songs i tr = Inl err #
                   outcomes ev creds songs (i + 1)
                     (sendEvent (UploadError (i + 1) (length songs) (song_title sng) err) tr2)"
        using True up Inl
        by (simp add: outcomes.simps [of ev creds songs i] sng_def tr1_def Let_def)
      from "1.IH"(1) [OF True sng_def tr1_def up [symmetric] Inl rec] out
      show ?thesis by (simp add: sng_def)
    qed
  qed
qed

lemma outcomes_length: "length (outcomes ev creds songs i tr) = length songs - i"
proof (induction ev creds songs i tr rule: outcomes.induct)
  case (1 ev creds songs i tr)
  show ?case
  proof (cases "i < length songs")
    case False
    then show ?thesis by (simp add: outcomes.simps)
  next
    case True
    define sng where "sng = songs ! i"
    define tr1 where "tr1 = sendEvent (UploadStart (i + 1) (length songs) (song_title sng)) tr"
    obtain r tr2 where up: "uploadAudioToYoto ev (song_file_path sng) (accessToken creds)
                              (\<lambda>msg. sendEvent (Log msg)) tr1 = (r, tr2)"
      by (cases "uploadAudioToYoto ev (song_file_path sng) (accessToken creds)
                   (\<lambda>msg. sendEvent (Log msg)) tr1")
    show ?thesis
    proof (cases r)
      case (Inr result)
      have out: "outcomes ev creds songs i tr = Inr result #
                   outcomes ev creds songs (i + 1)
                     (sendEvent (UploadComplete (i + 1) (length songs) (song_title sng)) tr2)"
        using True up Inr
        by (simp add: outcomes.simps [of ev creds songs i] sng_def tr1_def Let_def)
      from "1.IH"(2) [OF True sng_def tr1_def up [symmetric] Inr] out True
      show ?thesis by simp
    next
      case (Inl err)
      have out: "outcomes ev creds songs i tr = Inl err #
                   outcomes ev creds songs (i + 1)
                     (sendEvent (UploadError (i + 1) (length songs) (song_title sng) err) tr2)"
        using True up Inl
        by (simp add: outcomes.simps [of ev creds songs i] sng_def tr1_def Let_def)
      from "1.IH"(1) [OF True sng_def tr1_def up [symmetric] Inl] out True
      show ?thesis by simp
    qed
  qed
qed


section \<open>The publish route\<close>

lemma publish_try_none:
  assumes loop: "upload_loop ev creds songs 0 [] [] [] = ([], errors, tr1)"
  shows "publish_try ev st creds pid pl songs
           = (None, tr1 @ [Write (Error (AllUploadsFailed errors)), End], st)"
  using loop by (simp add: publish_try_def sendEvent_def)

lemma publish_try_some:
  assumes loop: "upload_loop ev creds songs 0 [] [] [] = (tracks, errors, tr1)"
      and ne: "tracks \<noteq> []"
  shows "publish_try ev st creds pid pl songs = create_card ev st creds pid pl tracks errors tr1"
  using loop ne by (simp add: publish_try_def)

lemma create_card_trace:
  assumes res: "create_card ev st creds pid pl tracks errors tr1 = (exn, tr, st')"
      and cnt: "cnt = build_content pl creds tracks"
      and dn: "dn = (\<lambda>cdata. Write (Done cdata (length tracks) (if errors \<noteq> [] then Some errors else None)))"
  shows "\<exists>post. tr = tr1 @ announce pl cnt @ Net (PostContent (accessToken creds) cnt) # post
           \<and> ((exn \<noteq> None \<and> post = [])
              \<or> (exn = None \<and> (\<exists>s t. post = [Write (Log (ErrorResponse t)),
                                               Write (Error (FailedToCreateCard s t)), End]))
              \<or> (exn = None \<and> (\<exists>cdata. post = [dn cdata, End]))
              \<or> (exn = None \<and> (\<exists>cdata v. post = [Write (Log (SavedCardId v)), dn cdata, End])))"
proof -
  define tr3 where "tr3 = tr1 @ announce pl cnt"
  define rq where "rq = PostContent (accessToken creds) cnt"
  define isNew where "isNew = (\<lambda>cardData. truthy (opt_get (get cardData ''card'') ''cardId'')
        \<and> differs (opt_get (get cardData ''card'') ''cardId'') (yoto_card_id pl))"
  have cc: "create_card ev st creds pid pl tracks errors tr1 =
     (case remote ev tr3 rq of
        Inl e \<Rightarrow> (Some e, tr3 @ [Net rq], st)
      | Inr persistResponse \<Rightarrow>
     if \<not> ok persistResponse
     then (None, tr3 @ [Net rq, Write (Log (ErrorResponse (body_text persistResponse))),
             Write (Error (FailedToCreateCard (status persistResponse) (body_text persistResponse))), End],
           st)
     else
     (case json persistResponse of
        None \<Rightarrow> (Some JsonParseError, tr3 @ [Net rq], st)
      | Some cardData \<Rightarrow>
     if nullish cardData then (Some TypeError, tr3 @ [Net rq], st)
     else
     if isNew cardData
     then (case db_bind ev (opt_get (get cardData ''card'') ''cardId'') of
             None \<Rightarrow> (Some DbBindError, tr3 @ [Net rq], st)
           | Some c \<Rightarrow>
               (None, tr3 @ [Net rq, Write (Log (SavedCardId (opt_get (get cardData ''card'') ''cardId''))),
                      dn cardData, End],
                 st\<lparr>playlists := (playlists st)(pid \<mapsto> pl\<lparr>yoto_card_id := Some c\<rparr>)\<rparr>))
     else (None, tr3 @ [Net rq, dn cardData, End], st)))"
    by (simp add: create_card_def fetch_def sendEvent_def Let_def announce_def tr3_def rq_def cnt dn isNew_def
             split: sum.splits option.splits)
  have tr3': "\<And>xs. tr3 @ Net rq # xs = tr1 @ announce pl cnt @ Net (PostContent (accessToken creds) cnt) # xs"
    by (simp add: tr3_def rq_def)
  show ?thesis
  proof (cases "remote ev tr3 rq")
    case (Inl e)
    with res cc have "exn = Some e" "tr = tr3 @ [Net rq]" by simp_all
    then show ?thesis using tr3' [of "[]"] by (intro exI [of _ "[]"]) simp
  next
    case (Inr resp)
    show ?thesis
    proof (cases "ok resp")
      case False
      with res cc Inr have "exn = None"
        "tr = tr3 @ [Net rq, Write (Log (ErrorResponse (body_text resp))),
             Write (Error (FailedToCreateCard (status resp) (body_text resp))), End]"
        by simp_all
      then show ?thesis
        using tr3' [of "[Write (Log (ErrorResponse (body_text resp))),
             Write (Error (FailedToCreateCard (status resp) (body_text resp))), End]"]
        by (intro exI [of _ "[Write (Log (ErrorResponse (body_text resp))),
             Write (Error (FailedToCreateCard (status resp) (body_text resp))), End]"]) simp
    next
      case True
      show ?thesis
      proof (cases "json resp")
        case None
        with res cc Inr True have "exn = Some JsonParseError" "tr = tr3 @ [Net rq]" by simp_all
        then show ?thesis using tr3' [of "[]"] by (intro exI [of _ "[]"]) simp
      next
        case (Some cdata)
        show ?thesis
        proof (cases "nullish cdata")
          case True
          with res cc Inr \<open>ok resp\<close> Some have "exn = Some TypeError" "tr = tr3 @ [Net rq]"
            by simp_all
          then show ?thesis using tr3' [of "[]"] by (intro exI [of _ "[]"]) simp
        next
          case nn: False
          define v where "v = opt_get (get cdata ''card'') ''cardId''"
          show ?thesis
          proof (cases "isNew cdata")
            case False
            with res cc Inr \<open>ok resp\<close> Some nn have "exn = None" "tr = tr3 @ [Net rq, dn cdata, End]"
              by (simp_all add: v_def)
            then show ?thesis using tr3' [of "[dn cdata, End]"]
              by (intro exI [of _ "[dn cdata, End]"]) auto
          next
            case True
            show ?thesis
            proof (cases "db_bind ev v")
              case None
              with res cc Inr \<open>ok resp\<close> Some nn True
              have "exn = Some DbBindError" "tr = tr3 @ [Net rq]" by (simp_all add: v_def)
              then show ?thesis using tr3' [of "[]"] by (intro exI [of _ "[]"]) simp
            next
              case (Some c)
              with res cc Inr \<open>ok resp\<close> \<open>json resp = Some cdata\<close> nn True
              have "exn = None" "tr = tr3 @ [Net rq, Write (Log (SavedCardId v)), dn cdata, End]"
                by (simp_all add: v_def)
              then show ?thesis using tr3' [of "[Write (Log (SavedCardId v)), dn cdata, End]"]
                by (intro exI [of _ "[Write (Log (SavedCardId v)), dn cdata, End]"]) auto
            qed
          qed
        qed
      qed
    qed
  qed
qed


lemma create_card_accepted:
  assumes cnt: "cnt = build_content pl creds tracks"
      and acc: "accepted ev pl (tr1 @ announce pl cnt) (PostContent (accessToken creds) cnt) cdata"
      and dn: "dn = Write (Done cdata (length tracks) (if errors \<noteq> [] then Some errors else None))"
  shows "\<exists>logs st'. list_all is_log_write logs \<and> create_card ev st creds pid pl tracks errors tr1
           = (None, tr1 @ announce pl cnt @ Net (PostContent (accessToken creds) cnt) # logs @ [dn, End], st')"
proof -
  define v where "v = opt_get (get cdata ''card'') ''cardId''"
  define a1 where "a1 = Write (Log (if truthy_str (yoto_card_id pl) then UpdatingCard else CreatingCard))"
  define rq where "rq = PostContent (accessToken creds) (build_content pl creds tracks)"
  from acc obtain resp where
    resp: "remote ev (tr1 @ [a1, Write (Log (Sending (build_content pl creds tracks)))]) rq = Inr resp"
      "ok resp" "json resp = Some cdata" "\<not> nullish cdata"
    and bind: "truthy v \<and> differs v (yoto_card_id pl) \<longrightarrow> db_bind ev v \<noteq> None"
    by (auto simp: accepted_def announce_def cnt v_def a1_def rq_def split: sum.splits)
  have ann: "announce pl (build_content pl creds tracks)
               = [a1, Write (Log (Sending (build_content pl creds tracks)))]"
    by (simp add: announce_def a1_def)
  show ?thesis
  proof (cases "truthy v \<and> differs v (yoto_card_id pl)")
    case True
    with bind obtain c where c: "db_bind ev v = Some c" by auto
    from True have t: "truthy v" and d: "differs v (yoto_card_id pl)" by simp_all
    have "create_card ev st creds pid pl tracks errors tr1
            = (None, tr1 @ [a1, Write (Log (Sending (build_content pl creds tracks))), Net rq,
                            Write (Log (SavedCardId v)), dn, End],
               st\<lparr>playlists := (playlists st)(pid \<mapsto> pl\<lparr>yoto_card_id := Some c\<rparr>)\<rparr>)"
      using resp t d c
      by (simp add: create_card_def fetch_def sendEvent_def Let_def
            a1_def [symmetric] rq_def [symmetric] v_def [symmetric] dn)
    then show ?thesis
      by (intro exI [of _ "[Write (Log (SavedCardId v))]"]
            exI [of _ "st\<lparr>playlists := (playlists st)(pid \<mapsto> pl\<lparr>yoto_card_id := Some c\<rparr>)\<rparr>"])
         (simp add: ann rq_def cnt)
  next
    case False
    have "create_card ev st creds pid pl tracks errors tr1
            = (None, tr1 @ [a1, Write (Log (Sending (build_content pl creds tracks))), Net rq, dn, End], st)"
    proof (cases "truthy v")
      case True
      with False have "\<not> differs v (yoto_card_id pl)" by simp
      with True resp show ?thesis
        by (simp add: create_card_def fetch_def sendEvent_def Let_def
              a1_def [symmetric] rq_def [symmetric] v_def [symmetric] dn)
    next
      case nt: False
      with resp show ?thesis
        by (simp add: create_card_def fetch_def sendEvent_def Let_def
              a1_def [symmetric] rq_def [symmetric] v_def [symmetric] dn)
    qed
    then show ?thesis
      by (intro exI [of _ "[]"] exI [of _ st]) (simp add: ann rq_def cnt)
  qed
qed

lemma progress_non_terminal: "is_progress e \<Longrightarrow> non_terminal e"
  by (cases e rule: is_progress.cases) simp_all

text \<open>
  Claim C4.  Whatever the state, the playlist and the remote do, everything a publish run
  does is a sequence of effects none of which ends the response or writes a terminal
  event (these are the per-file events, the log lines, the network requests and the
  waits), followed by exactly one terminal \<open>error\<close> or \<open>done\<close> event and the end of the
  response, after which the run does nothing.
\<close>

theorem one_terminal_event:
  "\<exists>pre t. fst (publish ev st pid) = pre @ [Write t, End] \<and> is_terminal t
            \<and> list_all non_terminal pre"
proof (cases "getStoredCredentials st")
  case None
  then show ?thesis
    by (intro exI [of _ "[]"] exI [of _ "Error NotConnected"]) (simp add: publish_def sendEvent_def)
next
  case (Some creds)
  show ?thesis
  proof (cases "playlists st pid")
    case None
    with Some show ?thesis
      by (intro exI [of _ "[]"] exI [of _ "Error PlaylistNotFound"])
         (simp add: publish_def sendEvent_def)
  next
    case pl: (Some pl)
    define songs where "songs = playlist_songs st pid"
    show ?thesis
    proof (cases "filter (not_downloaded ev) songs = []")
      case False
      with Some pl show ?thesis
        by (intro exI [of _ "[]"]
              exI [of _ "Error (SongsNotDownloaded (map song_title (filter (not_downloaded ev) songs)))"])
           (simp add: publish_def sendEvent_def songs_def Let_def)
    next
      case True
      obtain exn tr st' where res: "publish_try ev st creds pid pl songs = (exn, tr, st')"
        by (cases "publish_try ev st creds pid pl songs")
      have pub: "fst (publish ev st pid)
                   = (case exn of None \<Rightarrow> tr | Some e \<Rightarrow> tr @ [Write (Error (Uncaught e)), End])"
        using Some pl True res
        by (simp add: publish_def songs_def Let_def sendEvent_def split: option.splits)
      obtain tracks errors tr1 where loop: "upload_loop ev creds songs 0 [] [] [] = (tracks, errors, tr1)"
        by (cases "upload_loop ev creds songs 0 [] [] []")
      from upload_loop_progress [OF loop] have prog: "list_all is_progress tr1" by simp
      then have nt: "list_all non_terminal tr1"
        by (auto simp: list_all_iff intro: progress_non_terminal)
      show ?thesis
      proof (cases "tracks = []")
        case True
        with loop res publish_try_none [of ev creds songs errors tr1 st pid pl]
        have "exn = None" "tr = tr1 @ [Write (Error (AllUploadsFailed errors)), End]" by simp_all
        with pub nt show ?thesis
          by (intro exI [of _ tr1] exI [of _ "Error (AllUploadsFailed errors)"]) simp
      next
        case False
        from res publish_try_some [OF loop False]
        have cres: "create_card ev st creds pid pl tracks errors tr1 = (exn, tr, st')" by simp
        from create_card_trace [OF cres refl refl] obtain post where
          tr: "tr = tr1 @ announce pl (build_content pl creds tracks)
                 @ Net (PostContent (accessToken creds) (build_content pl creds tracks)) # post"
          and post: "(exn \<noteq> None \<and> post = [])
              \<or> (exn = None \<and> (\<exists>s t. post = [Write (Log (ErrorResponse t)),
                                               Write (Error (FailedToCreateCard s t)), End]))
              \<or> (exn = None \<and> (\<exists>cdata. post = [Write (Done cdata (length tracks)
                                     (if errors \<noteq> [] then Some errors else None)), End]))
              \<or> (exn = None \<and> (\<exists>cdata v. post = [Write (Log (SavedCardId v)),
                     Write (Done cdata (length tracks) (if errors \<noteq> [] then Some errors else None)), End]))"
          by blast
        define head where "head = tr1 @ announce pl (build_content pl creds tracks)
                 @ [Net (PostContent (accessToken creds) (build_content pl creds tracks))]"
        have hd_nt: "list_all non_terminal head"
          using nt by (simp add: head_def announce_def)
        have tr': "tr = head @ post" using tr by (simp add: head_def)
        from post show ?thesis
        proof (elim disjE conjE exE)
          assume "exn \<noteq> None" "post = []"
          then obtain e where "exn = Some e" by auto
          with pub tr' \<open>post = []\<close> hd_nt show ?thesis
            by (intro exI [of _ head] exI [of _ "Error (Uncaught e)"]) simp
        next
          fix s t assume "exn = None"
            "post = [Write (Log (ErrorResponse t)), Write (Error (FailedToCreateCard s t)), End]"
          with pub tr' hd_nt show ?thesis
            by (intro exI [of _ "head @ [Write (Log (ErrorResponse t))]"]
                      exI [of _ "Error (FailedToCreateCard s t)"]) simp
        next
          fix cdata assume "exn = None"
            "post = [Write (Done cdata (length tracks) (if errors \<noteq> [] then Some errors else None)), End]"
          with pub tr' hd_nt show ?thesis
            by (intro exI [of _ head]
                  exI [of _ "Done cdata (length tracks) (if errors \<noteq> [] then Some errors else None)"])
               simp
        next
          fix cdata v assume "exn = None"
            "post = [Write (Log (SavedCardId v)),
                     Write (Done cdata (length tracks) (if errors \<noteq> [] then Some errors else None)), End]"
          with pub tr' hd_nt show ?thesis
            by (intro exI [of _ "head @ [Write (Log (SavedCardId v))]"]
                  exI [of _ "Done cdata (length tracks) (if errors \<noteq> [] then Some errors else None)"])
               simp
        qed
      qed
    qed
  qed
qed

theorem one_terminal_event_witness:
  "(\<exists>pre t. fst (publish example_env example_state ''p1'') = pre @ [Write t, End]
       \<and> is_terminal t \<and> list_all non_terminal pre)
   \<and> last (fst (publish example_env example_state ''p2'')) = End
   \<and> length (filter (\<lambda>e. \<not> non_terminal e) (fst (publish example_env example_state ''p2''))) = 2"
proof -
  have "last (fst (publish example_env example_state ''p2'')) = End"
    by code_simp
  moreover have "length (filter (\<lambda>e. \<not> non_terminal e)
                   (fst (publish example_env example_state ''p2''))) = 2"
    by code_simp
  ultimately show ?thesis
    using one_terminal_event [of example_env example_state "''p1''"] by simp
qed


section \<open>Skipping the transfer of content the remote already holds\<close>

lemma poll_loop_first:
  assumes pl: "poll_loop ev token uid (\<lambda>msg. sendEvent (Log msg)) 0 tr = (r, tr')"
  shows "\<exists>rest. tr' = tr @ Sleep 2000 # Net (GetTranscoded token uid) # rest
           \<and> list_all (\<lambda>e. is_log_write e \<or> is_polling e) rest"
proof -
  obtain oc t1 where body: "poll_body ev token uid (\<lambda>msg. sendEvent (Log msg)) 0 tr = (oc, t1)"
    by (cases "poll_body ev token uid (\<lambda>msg. sendEvent (Log msg)) 0 tr")
  from poll_body_ext [OF body] obtain logs where
    t1: "t1 = tr @ Sleep 2000 # Net (GetTranscoded token uid) # logs" and
    logs: "list_all is_log_write logs" by blast
  have logs': "list_all (\<lambda>e. is_log_write e \<or> is_polling e) logs"
    using logs by (simp add: list_all_iff)
  show ?thesis
  proof (cases oc)
    case Continue
    with pl body have "poll_loop ev token uid (\<lambda>msg. sendEvent (Log msg)) (0 + 1) t1 = (r, tr')"
      by (simp add: poll_loop.simps [of ev token uid _ 0 tr])
    from poll_loop_shape [OF this] obtain effs where
      "tr' = t1 @ effs" "list_all (\<lambda>e. is_log_write e \<or> is_polling e) effs" by blast
    with t1 logs' show ?thesis by (intro exI [of _ "logs @ effs"]) simp
  next
    case (Break k)
    with pl body have "tr' = t1" by (simp add: poll_loop.simps [of ev token uid _ 0 tr])
    with t1 logs' show ?thesis by (intro exI [of _ logs]) simp
  next
    case (Throw e)
    with pl body have "tr' = t1" by (simp add: poll_loop.simps [of ev token uid _ 0 tr])
    with t1 logs' show ?thesis by (intro exI [of _ logs]) simp
  qed
qed

lemma polling_not_put: "list_all (\<lambda>e. is_log_write e \<or> is_polling e) es \<Longrightarrow> filter is_put es = []"
  by (induction es) (auto elim: is_log_write.elims is_polling.elims)

lemma upload_loop_step_ok:
  assumes i: "i < length songs"
      and up: "uploadAudioToYoto ev (song_file_path (songs ! i)) (accessToken creds)
                 (\<lambda>msg. sendEvent (Log msg))
                 (tr @ [Write (UploadStart (i + 1) (length songs) (song_title (songs ! i)))])
               = (Inr k, tr2)"
  shows "\<exists>later. snd (snd (upload_loop ev creds songs i tracks errors tr))
           = tr2 @ Write (UploadComplete (i + 1) (length songs) (song_title (songs ! i))) # later"
proof -
  obtain T E tr' where rec: "upload_loop ev creds songs (i + 1)
       (tracks @ [\<lparr>track_title = song_title (songs ! i), trackNumber = i + 1, track_key = k,
                   track_duration = song_duration (songs ! i), track_format = ''mp3''\<rparr>])
       errors (sendEvent (UploadComplete (i + 1) (length songs) (song_title (songs ! i))) tr2)
     = (T, E, tr')"
    by (metis prod_cases3)
  have "upload_loop ev creds songs i tracks errors tr = (T, E, tr')"
    using i up rec by (simp add: upload_loop.simps [of ev creds songs i] Let_def sendEvent_def)
  moreover from upload_loop_progress [OF rec] obtain effs where
    "tr' = sendEvent (UploadComplete (i + 1) (length songs) (song_title (songs ! i))) tr2 @ effs"
    by blast
  ultimately show ?thesis by (intro exI [of _ effs]) (simp add: sendEvent_def)
qed

text \<open>
  Claim C5.  Track \<open>i + 1\<close> of a run is uploaded from a readable file, and the response to
  its slot request carries an upload id and no transfer target.  Then the upload does, in
  this order and with nothing in between: the log line and the slot request, the log
  line for a file that is already uploaded, the log line for transcoding, the first wait
  of 2000 ms and the first status request.  Nothing it does afterwards is a PUT (and
  nothing before is one).  If it returns a key, the loop writes the \<open>upload-complete\<close>
  event of that track right after the last effect of the upload.
\<close>

theorem dedup_skips_transfer:
  assumes i: "i < length songs"
      and fp: "song_file_path (songs ! i) = Some path"
      and rd: "readFileSync ev path = Some buf"
      and tr1: "tr1 = tr @ [Write (UploadStart (i + 1) (length songs) (song_title (songs ! i)))]"
      and slot: "remote ev (tr1 @ [Write (Log GettingUploadUrl)])
                   (GetUploadUrl (accessToken creds) (sha256 ev buf) (basename ev path)) = Inr resp"
      and ok: "ok resp" and js: "json resp = Some d" and nn: "\<not> nullish d"
      and uid: "uploadId = opt_get (get d ''upload'') ''uploadId''"
      and has_id: "truthy uploadId"
      and no_url: "\<not> truthy (opt_get (get d ''upload'') ''uploadUrl'')"
  shows "\<exists>r rest. uploadAudioToYoto ev (song_file_path (songs ! i)) (accessToken creds)
                     (\<lambda>msg. sendEvent (Log msg)) tr1
           = (r, tr1 @ [Write (Log GettingUploadUrl),
                        Net (GetUploadUrl (accessToken creds) (sha256 ev buf) (basename ev path)),
                        Write (Log FileAlreadyUploaded),
                        Write (Log WaitingForTranscoding),
                        Sleep 2000,
                        Net (GetTranscoded (accessToken creds) uploadId)] @ rest)
         \<and> filter is_put rest = []
         \<and> (\<forall>k. r = Inr k \<longrightarrow>
              (\<exists>later. snd (snd (upload_loop ev creds songs i tracks errors tr))
                 = tr1 @ [Write (Log GettingUploadUrl),
                        Net (GetUploadUrl (accessToken creds) (sha256 ev buf) (basename ev path)),
                        Write (Log FileAlreadyUploaded),
                        Write (Log WaitingForTranscoding),
                        Sleep 2000,
                        Net (GetTranscoded (accessToken creds) uploadId)] @ rest
                   @ Write (UploadComplete (i + 1) (length songs) (song_title (songs ! i))) # later))"
proof -
  define tok where "tok = accessToken creds"
  define rq where "rq = GetUploadUrl tok (sha256 ev buf) (basename ev path)"
  define url where "url = opt_get (get d ''upload'') ''uploadUrl''"
  have s1: "get_upload_url ev tok path buf (\<lambda>msg. sendEvent (Log msg)) tr1
              = (Inr (url, uploadId), tr1 @ [Write (Log GettingUploadUrl), Net rq])"
    using slot ok js nn has_id
    by (simp add: get_upload_url_def fetch_def sendEvent_def Let_def rq_def tok_def url_def uid)
  have s2: "upload_to_s3 ev url buf (\<lambda>msg. sendEvent (Log msg))
              (tr1 @ [Write (Log GettingUploadUrl), Net rq])
            = (None, tr1 @ [Write (Log GettingUploadUrl), Net rq, Write (Log FileAlreadyUploaded)])"
    using no_url by (simp add: upload_to_s3_def sendEvent_def url_def)
  define t2 where "t2 = tr1 @ [Write (Log GettingUploadUrl), Net rq, Write (Log FileAlreadyUploaded),
                               Write (Log WaitingForTranscoding)]"
  obtain r3 t3 where s3: "poll_loop ev tok uploadId (\<lambda>msg. sendEvent (Log msg)) 0 t2 = (r3, t3)"
    by (cases "poll_loop ev tok uploadId (\<lambda>msg. sendEvent (Log msg)) 0 t2")
  from poll_loop_first [OF s3] obtain rest where
    t3: "t3 = t2 @ Sleep 2000 # Net (GetTranscoded tok uploadId) # rest" and
    rest: "list_all (\<lambda>e. is_log_write e \<or> is_polling e) rest" by blast
  define r where "r = (case r3 of Inl e \<Rightarrow> Inl e | Inr None \<Rightarrow> Inl TranscodingTimedOut
                        | Inr (Some k) \<Rightarrow> Inr k)"
  have up: "uploadAudioToYoto ev (song_file_path (songs ! i)) tok (\<lambda>msg. sendEvent (Log msg)) tr1
              = (r, t3)"
    using fp rd s1 s2 s3
    by (simp add: uploadAudioToYoto_def sendEvent_def t2_def r_def split: sum.splits option.splits)
  have t3': "t3 = tr1 @ [Write (Log GettingUploadUrl), Net rq, Write (Log FileAlreadyUploaded),
                         Write (Log WaitingForTranscoding), Sleep 2000,
                         Net (GetTranscoded tok uploadId)] @ rest"
    using t3 by (simp add: t2_def)
  have later: "\<forall>k. r = Inr k \<longrightarrow>
      (\<exists>later. snd (snd (upload_loop ev creds songs i tracks errors tr))
         = t3 @ Write (UploadComplete (i + 1) (length songs) (song_title (songs ! i))) # later)"
  proof (intro allI impI)
    fix k assume "r = Inr k"
    with up have "uploadAudioToYoto ev (song_file_path (songs ! i)) (accessToken creds)
                 (\<lambda>msg. sendEvent (Log msg))
                 (tr @ [Write (UploadStart (i + 1) (length songs) (song_title (songs ! i)))])
               = (Inr k, t3)"
      by (simp add: tok_def tr1)
    from upload_loop_step_ok [OF i this]
    show "\<exists>later. snd (snd (upload_loop ev creds songs i tracks errors tr))
         = t3 @ Write (UploadComplete (i + 1) (length songs) (song_title (songs ! i))) # later" .
  qed
  show ?thesis
    using up later polling_not_put [OF rest] unfolding t3' tok_def rq_def
    by (intro exI [of _ r] exI [of _ rest]) simp
qed

theorem dedup_skips_transfer_witness:
  "(2::nat) < length example_songs
   \<and> song_file_path (example_songs ! 2) = Some ''c.mp3''
   \<and> \<not> truthy (opt_get (get (JObj [(''upload'',
              JObj [(''uploadId'', JStr ''c.mp3''), (''uploadUrl'', JNull)])]) ''upload'') ''uploadUrl'')
   \<and> (\<exists>r rest. uploadAudioToYoto example_env (song_file_path (example_songs ! 2)) ''at''
                     (\<lambda>msg. sendEvent (Log msg)) [Write (UploadStart 3 3 ''C'')]
           = (r, [Write (UploadStart 3 3 ''C''), Write (Log GettingUploadUrl),
                  Net (GetUploadUrl ''at'' ''c.mp3'' ''c.mp3''),
                  Write (Log FileAlreadyUploaded),
                  Write (Log WaitingForTranscoding),
                  Sleep 2000,
                  Net (GetTranscoded ''at'' (JStr ''c.mp3''))] @ rest)
         \<and> filter is_put rest = [])
   \<and> Write (UploadComplete 3 3 ''C'')
       \<in> set (snd (snd (upload_loop example_env example_creds example_songs 2 [] [] [])))"
proof -
  define d where "d = JObj [(''upload'', JObj [(''uploadId'', JStr ''c.mp3''), (''uploadUrl'', JNull)])]"
  define resp where "resp = \<lparr>status = 200, body_text = [], json = Some d\<rparr>"
  have h1: "(2::nat) < length example_songs" by (simp add: example_songs_def)
  have h2: "song_file_path (example_songs ! 2) = Some ''c.mp3''" by (simp add: example_songs_def)
  have h3: "readFileSync example_env ''c.mp3'' = Some ''c.mp3''" by (simp add: example_env_def)
  have h4: "[Write (UploadStart 3 3 ''C'')]
              = [] @ [Write (UploadStart (2 + 1) (length example_songs) (song_title (example_songs ! 2)))]"
    by (simp add: example_songs_def)
  have h5: "remote example_env ([Write (UploadStart 3 3 ''C'')] @ [Write (Log GettingUploadUrl)])
              (GetUploadUrl (accessToken example_creds) (sha256 example_env ''c.mp3'')
                 (basename example_env ''c.mp3'')) = Inr resp"
    by (simp add: example_env_def example_remote_def example_creds_def resp_def d_def)
  have h6: "ok resp" by (simp add: ok_def resp_def)
  have h7: "json resp = Some d" by (simp add: resp_def)
  have h8: "\<not> nullish d" by (simp add: d_def)
  have h9: "JStr ''c.mp3'' = opt_get (get d ''upload'') ''uploadId''" by (simp add: d_def opt_get_def)
  have h10: "truthy (JStr ''c.mp3'')" by simp
  have h11: "\<not> truthy (opt_get (get d ''upload'') ''uploadUrl'')" by (simp add: d_def opt_get_def)
  have m: "Write (UploadComplete 3 3 ''C'')
       \<in> set (snd (snd (upload_loop example_env example_creds example_songs 2 [] [] [])))"
    by code_simp
  have t: "accessToken example_creds = ''at''" "sha256 example_env ''c.mp3'' = ''c.mp3''"
    "basename example_env ''c.mp3'' = ''c.mp3''"
    by (simp_all add: example_creds_def example_env_def)
  from dedup_skips_transfer [OF h1 h2 h3 h4 h5 h6 h7 h8 h9 h10 h11, of "[]" "[]"]
  obtain r rest where
    "uploadAudioToYoto example_env (song_file_path (example_songs ! 2)) (accessToken example_creds)
                     (\<lambda>msg. sendEvent (Log msg)) [Write (UploadStart 3 3 ''C'')]
           = (r, [Write (UploadStart 3 3 ''C'')] @ [Write (Log GettingUploadUrl),
                        Net (GetUploadUrl (accessToken example_creds) (sha256 example_env ''c.mp3'')
                               (basename example_env ''c.mp3'')),
                        Write (Log FileAlreadyUploaded),
                        Write (Log WaitingForTranscoding),
                        Sleep 2000,
                        Net (GetTranscoded (accessToken example_creds) (JStr ''c.mp3''))] @ rest)"
    "filter is_put rest = []"
    by blast
  then have e: "\<exists>r rest. uploadAudioToYoto example_env (song_file_path (example_songs ! 2)) ''at''
                     (\<lambda>msg. sendEvent (Log msg)) [Write (UploadStart 3 3 ''C'')]
           = (r, [Write (UploadStart 3 3 ''C''), Write (Log GettingUploadUrl),
                  Net (GetUploadUrl ''at'' ''c.mp3'' ''c.mp3''),
                  Write (Log FileAlreadyUploaded),
                  Write (Log WaitingForTranscoding),
                  Sleep 2000,
                  Net (GetTranscoded ''at'' (JStr ''c.mp3''))] @ rest)
         \<and> filter is_put rest = []"
    using t by (intro exI [of _ r] exI [of _ rest]) simp
  from h1 h2 h11 e m show ?thesis by (simp add: d_def)
qed

section \<open>Runs in which uploads fail\<close>

lemma publish_unfold:
  assumes creds: "getStoredCredentials st = Some creds"
      and pl: "playlists st pid = Some pl"
      and dl: "filter (not_downloaded ev) (playlist_songs st pid) = []"
      and res: "publish_try ev st creds pid pl (playlist_songs st pid) = (exn, tr, st')"
  shows "fst (publish ev st pid)
           = (case exn of None \<Rightarrow> tr | Some e \<Rightarrow> tr @ [Write (Error (Uncaught e)), End])"
  using creds pl dl res
  by (simp add: publish_def Let_def sendEvent_def split: option.splits)

lemma progress_not_post: "list_all is_progress es \<Longrightarrow> filter is_post_content es = []"
  by (induction es) (auto elim: is_post_content.elims)

lemma all_failed_lists:
  "\<forall>r\<in>set outs. isl r \<Longrightarrow> i + length outs = length songs \<Longrightarrow>
     tracks_of songs i outs = []
     \<and> map fst (errors_of songs i outs) = map song_title (drop i songs)
     \<and> map (\<lambda>x. Inl (snd x)) (errors_of songs i outs) = outs"
proof (induction outs arbitrary: i)
  case Nil
  then show ?case by simp
next
  case (Cons r outs)
  from Cons.prems obtain e where r: "r = Inl e" by (cases r) auto
  from Cons.prems have i: "i < length songs" by simp
  from Cons.IH [of "i + 1"] Cons.prems
  have ih: "tracks_of songs (i + 1) outs = []"
    "map fst (errors_of songs (i + 1) outs) = map song_title (drop (i + 1) songs)"
    "map (\<lambda>x. Inl (snd x)) (errors_of songs (i + 1) outs) = outs"
    by simp_all
  have "drop i songs = songs ! i # drop (i + 1) songs"
    using i by (simp add: Cons_nth_drop_Suc)
  with ih r show ?case by simp
qed

text \<open>
  Claim C2.  In a run that reaches the upload loop (credentials stored, playlist found,
  every song downloaded) and in which every call of \<open>uploadAudioToYoto\<close> fails, the run
  ends with the terminal \<open>error\<close> event for failed uploads, whose \<open>errors\<close> list has one
  entry per song of the playlist, in playlist order, carrying the song's title and the
  error of its upload; and no request to the content endpoint occurs anywhere in the run.
\<close>

theorem all_uploads_failed:
  assumes creds: "getStoredCredentials st = Some creds"
      and pl: "playlists st pid = Some pl"
      and dl: "filter (not_downloaded ev) (playlist_songs st pid) = []"
      and fail: "\<forall>r \<in> set (outcomes ev creds (playlist_songs st pid) 0 []). isl r"
  shows "\<exists>pre errs. fst (publish ev st pid) = pre @ [Write (Error (AllUploadsFailed errs)), End]
           \<and> map fst errs = map song_title (playlist_songs st pid)
           \<and> map (\<lambda>x. Inl (snd x)) errs = outcomes ev creds (playlist_songs st pid) 0 []
           \<and> filter is_post_content (fst (publish ev st pid)) = []"
proof -
  define songs where "songs = playlist_songs st pid"
  obtain tracks errors tr1 where loop: "upload_loop ev creds songs 0 [] [] [] = (tracks, errors, tr1)"
    by (cases "upload_loop ev creds songs 0 [] [] []")
  from upload_loop_outcomes [OF loop]
  have te: "tracks = tracks_of songs 0 (outcomes ev creds songs 0 [])"
           "errors = errors_of songs 0 (outcomes ev creds songs 0 [])" by simp_all
  have len: "0 + length (outcomes ev creds songs 0 []) = length songs"
    by (simp add: outcomes_length)
  from all_failed_lists [OF fail [folded songs_def] len] te
  have none: "tracks = []" and titles: "map fst errors = map song_title songs"
    and errs: "map (\<lambda>x. Inl (snd x)) errors = outcomes ev creds songs 0 []"
    by simp_all
  from publish_try_none [of ev creds songs errors tr1 st pid pl] loop none
  have res: "publish_try ev st creds pid pl (playlist_songs st pid)
               = (None, tr1 @ [Write (Error (AllUploadsFailed errors)), End], st)"
    by (simp add: songs_def)
  from publish_unfold [OF creds pl dl res]
  have tr: "fst (publish ev st pid) = tr1 @ [Write (Error (AllUploadsFailed errors)), End]"
    by simp
  from upload_loop_progress [OF loop] have "list_all is_progress tr1" by simp
  then have "filter is_post_content tr1 = []" by (rule progress_not_post)
  with tr titles errs show ?thesis
    by (intro exI [of _ tr1] exI [of _ errors]) (simp add: songs_def)
qed

theorem all_uploads_failed_witness:
  "getStoredCredentials example_state = Some example_creds
   \<and> playlists example_state ''p2'' = Some \<lparr>name = ''Broken'', yoto_card_id = None\<rparr>
   \<and> filter (not_downloaded example_env) (playlist_songs example_state ''p2'') = []
   \<and> outcomes example_env example_creds (playlist_songs example_state ''p2'') 0 []
       = [Inl (FailedToUploadToS3 500)]
   \<and> (\<exists>pre errs. fst (publish example_env example_state ''p2'')
                     = pre @ [Write (Error (AllUploadsFailed errs)), End]
           \<and> map fst errs = map song_title (playlist_songs example_state ''p2'')
           \<and> map (\<lambda>x. Inl (snd x)) errs
               = outcomes example_env example_creds (playlist_songs example_state ''p2'') 0 []
           \<and> filter is_post_content (fst (publish example_env example_state ''p2'')) = [])"
proof -
  have c: "getStoredCredentials example_state = Some example_creds"
    by (simp add: getStoredCredentials_def example_state_def example_creds_def)
  have p: "playlists example_state ''p2'' = Some \<lparr>name = ''Broken'', yoto_card_id = None\<rparr>"
    by (simp add: example_state_def)
  have d: "filter (not_downloaded example_env) (playlist_songs example_state ''p2'') = []"
    by (simp add: example_state_def example_songs_def not_downloaded_def example_env_def)
  have o: "outcomes example_env example_creds (playlist_songs example_state ''p2'') 0 []
             = [Inl (FailedToUploadToS3 500)]"
    by code_simp
  then have f: "\<forall>r \<in> set (outcomes example_env example_creds
                             (playlist_songs example_state ''p2'') 0 []). isl r"
    by simp
  from all_uploads_failed [OF c p d f] c p d o show ?thesis by blast
qed

lemma tracks_of_all_ok:
  "errors_of songs i outs = [] \<Longrightarrow>
     map trackNumber (tracks_of songs i outs) = [Suc i ..< Suc (i + length outs)]"
proof (induction outs arbitrary: i)
  case Nil
  then show ?case by simp
next
  case (Cons r outs)
  from Cons.prems obtain k where r: "r = Inr k" by (cases r) auto
  with Cons.prems have "errors_of songs (i + 1) outs = []" by simp
  from Cons.IH [OF this]
  have ih: "map trackNumber (tracks_of songs (Suc i) outs) = [Suc (Suc i) ..< Suc (Suc i + length outs)]"
    by simp
  have "[Suc i ..< Suc (i + length (r # outs))] = Suc i # [Suc (Suc i) ..< Suc (Suc i + length outs)]"
    by (subst upt_rec) simp
  with ih r show ?case by simp
qed

lemma chapter_keys:
  "map ch_key (c_chapters (build_content pl creds tracks))
     = map (\<lambda>i. padStart2 (String_of i)) [0 ..< length tracks]"
proof -
  have gen: "map (\<lambda>x. g (fst x)) ys = map g (map fst ys)" for g :: "nat \<Rightarrow> string" and ys :: "(nat \<times> track) list"
    by (simp add: comp_def)
  have "map ch_key (map mk_chapter (enumerate 0 tracks))
          = map (\<lambda>x. padStart2 (String_of (fst x))) (enumerate 0 tracks)"
    by (simp add: mk_chapter_def split_beta comp_def)
  also have "\<dots> = map (\<lambda>i. padStart2 (String_of i)) (map fst (enumerate 0 tracks))"
    by (rule gen)
  also have "\<dots> = map (\<lambda>i. padStart2 (String_of i)) [0 ..< length tracks]"
    by (simp only: map_fst_enumerate) simp
  finally show ?thesis by (simp add: build_content_def)
qed

lemma tracks_of_positions:
  "map trackNumber (tracks_of songs i outs)
     = map (\<lambda>p. fst p + 1) (filter (\<lambda>p. \<not> isl (snd p)) (enumerate i outs))
   \<and> map track_title (tracks_of songs i outs)
     = map (\<lambda>p. song_title (songs ! fst p)) (filter (\<lambda>p. \<not> isl (snd p)) (enumerate i outs))"
proof (induction outs arbitrary: i)
  case Nil
  then show ?case by simp
next
  case (Cons r outs)
  from Cons [of "i + 1"] show ?case by (cases r) simp_all
qed

lemma tracks_errors_length:
  "length (tracks_of songs i outs) + length (errors_of songs i outs) = length outs"
proof (induction outs arbitrary: i)
  case Nil
  then show ?case by simp
next
  case (Cons r outs)
  from Cons [of "i + 1"] show ?case by (cases r) simp_all
qed

lemma tracks_of_count:
  "length (tracks_of songs i outs) = length (filter (\<lambda>r. \<not> isl r) outs)"
proof (induction outs arbitrary: i)
  case Nil
  then show ?case by simp
next
  case (Cons r outs)
  from Cons [of "i + 1"] show ?case by (cases r) simp_all
qed

lemma positions_lower:
  "p \<in> set (filter (\<lambda>p. \<not> isl (snd p)) (enumerate i outs)) \<Longrightarrow> i \<le> fst p"
  by (auto simp: in_set_enumerate_eq)

lemma positions_length:
  "length (filter (\<lambda>p. \<not> isl (snd p)) (enumerate i outs)) = length (filter (\<lambda>r. \<not> isl r) outs)"
proof (induction outs arbitrary: i)
  case Nil
  then show ?case by simp
next
  case (Cons r outs)
  from Cons [of "Suc i"] show ?case by simp
qed

lemma contiguous_iff:
  "(map fst (filter (\<lambda>p. \<not> isl (snd p)) (enumerate i outs))
      = [i ..< i + length (filter (\<lambda>r. \<not> isl r) outs)])
   = list_all (\<lambda>r. \<not> isl r) (take (length (filter (\<lambda>r. \<not> isl r) outs)) outs)"
proof (induction outs arbitrary: i)
  case Nil
  then show ?case by simp
next
  case (Cons r outs)
  define m where "m = length (filter (\<lambda>r. \<not> isl r) outs)"
  define S where "S = filter (\<lambda>p. \<not> isl (snd p)) (enumerate (Suc i) outs)"
  have ih: "(map fst S = [Suc i ..< Suc i + m]) = list_all (\<lambda>r. \<not> isl r) (take m outs)"
    using Cons [of "Suc i"] by (simp add: S_def m_def)
  show ?case
  proof (cases "isl r")
    case False
    have "[i ..< i + Suc m] = i # [Suc i ..< Suc i + m]"
      by (subst upt_rec) simp
    with False ih show ?thesis by (simp add: S_def [symmetric] m_def [symmetric])
  next
    case True
    show ?thesis
    proof (cases m)
      case 0
      then have "S = []" using positions_length [of "Suc i" outs] by (simp add: S_def m_def)
      with True 0 show ?thesis by (simp add: S_def [symmetric] m_def [symmetric])
    next
      case (Suc k)
      then have "S \<noteq> []" using positions_length [of "Suc i" outs] by (auto simp: S_def m_def)
      then obtain p ps where S: "S = p # ps" by (cases S) auto
      then have "p \<in> set (filter (\<lambda>p. \<not> isl (snd p)) (enumerate (Suc i) outs))"
        by (simp add: S_def [symmetric])
      from positions_lower [OF this] have "fst p \<noteq> i" by simp
      moreover have "[i ..< i + m] = i # [Suc i ..< i + m]"
        using Suc by (subst upt_rec) simp
      ultimately have "map fst S \<noteq> [i ..< i + m]" using S by simp
      with True Suc show ?thesis by (simp add: S_def [symmetric] m_def [symmetric])
    qed
  qed
qed

lemma suc_positions:
  "(map (\<lambda>p. fst p + 1) (xs :: (nat \<times> 'a) list) = [1 ..< Suc m]) = (map fst xs = [0 ..< m])"
proof -
  have "map (\<lambda>p. fst p + 1) xs = map Suc (map fst xs)" by simp
  moreover have "[1 ..< Suc m] = map Suc [0 ..< m]" by (simp add: map_Suc_upt)
  ultimately show ?thesis by (simp only: inj_map_eq_map [OF inj_Suc])
qed

text \<open>
  Claim C3, amended.  The \<open>trackNumber\<close> of a track is the 1-based position of its song
  in the playlist, not its position in the manifest.  With one upload result per song,
  the \<open>trackNumber\<close> values of the tracks the chapters are built from, in manifest order,
  are exactly the positions, counted from 1 and in increasing order, of the songs whose
  upload succeeded, and the titles are the titles of these songs; the position of a
  failed upload is missing.  The values are \<open>1, 2, ..., m\<close> for the \<open>m\<close> tracks exactly when
  the first \<open>m\<close> uploads are the successful ones (no failed upload comes before a
  successful one), and \<open>1, 2, ..., n\<close> for a playlist of \<open>n\<close> songs exactly when no upload
  failed.  The manifest carries no \<open>trackNumber\<close>; the key of its chapter number \<open>k\<close>,
  counted from 0, is \<open>String(k).padStart(2, '0')\<close>.
\<close>

theorem track_numbers_follow_playlist:
  assumes loop: "upload_loop ev creds songs 0 [] [] [] = (tracks, errors, tr)"
      and outs: "outs = outcomes ev creds songs 0 []"
  shows "length outs = length songs
         \<and> map trackNumber tracks
             = map (\<lambda>p. fst p + 1) (filter (\<lambda>p. \<not> isl (snd p)) (enumerate 0 outs))
         \<and> map track_title tracks
             = map (\<lambda>p. song_title (songs ! fst p)) (filter (\<lambda>p. \<not> isl (snd p)) (enumerate 0 outs))
         \<and> (map trackNumber tracks = [1 ..< Suc (length tracks)])
             = list_all (\<lambda>r. \<not> isl r) (take (length tracks) outs)
         \<and> (map trackNumber tracks = [1 ..< Suc (length songs)]) = (errors = [])
         \<and> map ch_key (c_chapters (build_content pl creds tracks))
             = map (\<lambda>k. padStart2 (String_of k)) [0 ..< length tracks]"
proof -
  from upload_loop_outcomes [OF loop] outs
  have te: "tracks = tracks_of songs 0 outs" "errors = errors_of songs 0 outs" by simp_all
  have len: "length outs = length songs"
    by (simp add: outs outcomes_length)
  note pos = tracks_of_positions [of songs 0 outs, folded te]
  have cnt: "length tracks = length (filter (\<lambda>r. \<not> isl r) outs)"
    by (simp add: te tracks_of_count)
  have d: "(map trackNumber tracks = [1 ..< Suc (length tracks)])
             = list_all (\<lambda>r. \<not> isl r) (take (length tracks) outs)"
    unfolding pos [THEN conjunct1] suc_positions cnt
    using contiguous_iff [of 0 outs] by simp
  have sum: "length tracks + length errors = length songs"
    using tracks_errors_length [of songs 0 outs] te len by simp
  have e: "(map trackNumber tracks = [1 ..< Suc (length songs)]) = (errors = [])"
  proof
    assume "map trackNumber tracks = [1 ..< Suc (length songs)]"
    then have "length (map trackNumber tracks) = length [1 ..< Suc (length songs)]" by simp
    then have "length tracks = length songs" by (simp del: upt_Suc)
    with sum show "errors = []" by simp
  next
    assume "errors = []"
    with te have "errors_of songs 0 outs = []" by simp
    from tracks_of_all_ok [OF this] te len
    show "map trackNumber tracks = [1 ..< Suc (length songs)]" by simp
  qed
  from len pos d e chapter_keys [of pl creds tracks] show ?thesis by blast
qed

text \<open>
  Claim C3 as stated fails: in the run over the three-song playlist whose second upload
  fails, a manifest is posted that is built from two tracks numbered 1 and 3.
\<close>

theorem track_numbers_gap:
  "map trackNumber (fst (upload_loop example_env example_creds example_songs 0 [] [] [])) = [1, 3]
   \<and> Net (PostContent ''at'' (build_content \<lparr>name = ''Mix'', yoto_card_id = None\<rparr> example_creds
            (fst (upload_loop example_env example_creds example_songs 0 [] [] []))))
       \<in> set (fst (publish example_env example_state ''p1''))"
  by code_simp

theorem track_numbers_follow_playlist_witness:
  "outcomes example_env example_creds example_songs 0 []
     = [Inr (JStr ''a.mp3''), Inl (FailedToUploadToS3 500), Inr (JStr ''c.mp3'')]
   \<and> map trackNumber (fst (upload_loop example_env example_creds example_songs 0 [] [] [])) = [1, 3]
   \<and> map track_title (fst (upload_loop example_env example_creds example_songs 0 [] [] []))
       = [''A'', ''C'']
   \<and> map ch_key (c_chapters (build_content \<lparr>name = ''Mix'', yoto_card_id = None\<rparr> example_creds
           (fst (upload_loop example_env example_creds example_songs 0 [] [] []))))
       = [''00'', ''01'']"
proof -
  obtain tracks errors tr where
    loop: "upload_loop example_env example_creds example_songs 0 [] [] [] = (tracks, errors, tr)"
    by (cases "upload_loop example_env example_creds example_songs 0 [] [] []")
  have o: "outcomes example_env example_creds example_songs 0 []
             = [Inr (JStr ''a.mp3''), Inl (FailedToUploadToS3 500), Inr (JStr ''c.mp3'')]"
    by code_simp
  have t: "song_title (example_songs ! 0) = ''A''" "song_title (example_songs ! 2) = ''C''"
    by (simp_all add: example_songs_def)
  have k: "map (\<lambda>k. padStart2 (String_of k)) [0 ..< 2] = [''00'', ''01'']"
    by code_simp
  note inst = track_numbers_follow_playlist [OF loop o [symmetric],
                where pl = "\<lparr>name = ''Mix'', yoto_card_id = None\<rparr>"]
  note b = inst [THEN conjunct2, THEN conjunct1]
  note c = inst [THEN conjunct2, THEN conjunct2, THEN conjunct1]
  note f = inst [THEN conjunct2, THEN conjunct2, THEN conjunct2, THEN conjunct2, THEN conjunct2]
  from b have n: "map trackNumber tracks = [1, 3]"
    by (simp add: numeral_3_eq_3)
  then have "length (map trackNumber tracks) = length [1::nat, 3]" by (rule arg_cong)
  then have l: "length tracks = 2" by simp
  from c have ti: "map track_title tracks = [''A'', ''C'']"
    by (simp add: example_songs_def)
  from f l k have ks: "map ch_key (c_chapters (build_content \<lparr>name = ''Mix'', yoto_card_id = None\<rparr>
                            example_creds tracks)) = [''00'', ''01'']"
    by simp
  from o n ti ks loop show ?thesis by simp
qed

lemma publish_submitting:
  assumes creds: "getStoredCredentials st = Some creds"
      and pl: "playlists st pid = Some pl"
      and dl: "filter (not_downloaded ev) (playlist_songs st pid) = []"
      and loop: "upload_loop ev creds (playlist_songs st pid) 0 [] [] [] = (tracks, errors, tr1)"
      and ne: "tracks \<noteq> []"
      and cnt: "cnt = build_content pl creds tracks"
      and dn: "dn = (\<lambda>cdata. Write (Done cdata (length tracks) (if errors \<noteq> [] then Some errors else None)))"
  shows "\<exists>post. fst (publish ev st pid)
                  = tr1 @ announce pl cnt @ Net (PostContent (accessToken creds) cnt) # post
           \<and> ((\<exists>e. post = [Write (Error (Uncaught e)), End])
              \<or> (\<exists>s t. post = [Write (Log (ErrorResponse t)),
                               Write (Error (FailedToCreateCard s t)), End])
              \<or> (\<exists>cdata. post = [dn cdata, End])
              \<or> (\<exists>cdata v. post = [Write (Log (SavedCardId v)), dn cdata, End]))"
proof -
  obtain exn tr st' where res: "publish_try ev st creds pid pl (playlist_songs st pid) = (exn, tr, st')"
    by (cases "publish_try ev st creds pid pl (playlist_songs st pid)")
  from res publish_try_some [OF loop ne]
  have cres: "create_card ev st creds pid pl tracks errors tr1 = (exn, tr, st')" by simp
  from create_card_trace [OF cres cnt dn] obtain post where
    tr: "tr = tr1 @ announce pl cnt @ Net (PostContent (accessToken creds) cnt) # post"
    and post: "(exn \<noteq> None \<and> post = [])
              \<or> (exn = None \<and> (\<exists>s t. post = [Write (Log (ErrorResponse t)),
                                               Write (Error (FailedToCreateCard s t)), End]))
              \<or> (exn = None \<and> (\<exists>cdata. post = [dn cdata, End]))
              \<or> (exn = None \<and> (\<exists>cdata v. post = [Write (Log (SavedCardId v)), dn cdata, End]))"
    by blast
  note pub = publish_unfold [OF creds pl dl res]
  show ?thesis
  proof (cases exn)
    case None
    with pub tr have "fst (publish ev st pid)
        = tr1 @ announce pl cnt @ Net (PostContent (accessToken creds) cnt) # post" by simp
    with post None show ?thesis by (intro exI [of _ post]) blast
  next
    case (Some e)
    with post have "post = []" by auto
    with pub tr Some have "fst (publish ev st pid)
        = tr1 @ announce pl cnt @ Net (PostContent (accessToken creds) cnt)
            # [Write (Error (Uncaught e)), End]" by simp
    then show ?thesis by (intro exI [of _ "[Write (Error (Uncaught e)), End]"]) blast
  qed
qed

lemma publish_accepted:
  assumes creds: "getStoredCredentials st = Some creds"
      and pl: "playlists st pid = Some pl"
      and dl: "filter (not_downloaded ev) (playlist_songs st pid) = []"
      and loop: "upload_loop ev creds (playlist_songs st pid) 0 [] [] [] = (tracks, errors, tr1)"
      and ne: "tracks \<noteq> []"
      and cnt: "cnt = build_content pl creds tracks"
      and acc: "accepted ev pl (tr1 @ announce pl cnt) (PostContent (accessToken creds) cnt) cdata"
      and dn: "dn = Write (Done cdata (length tracks) (if errors \<noteq> [] then Some errors else None))"
  shows "\<exists>logs. list_all is_log_write logs \<and> fst (publish ev st pid)
           = tr1 @ announce pl cnt @ Net (PostContent (accessToken creds) cnt) # logs @ [dn, End]"
proof -
  from create_card_accepted [OF cnt acc dn, of st pid] obtain logs st' where
    logs: "list_all is_log_write logs" and
    cc: "create_card ev st creds pid pl tracks errors tr1
           = (None, tr1 @ announce pl cnt @ Net (PostContent (accessToken creds) cnt) # logs @ [dn, End], st')"
    by blast
  from cc publish_try_some [OF loop ne]
  have res: "publish_try ev st creds pid pl (playlist_songs st pid)
           = (None, tr1 @ announce pl cnt @ Net (PostContent (accessToken creds) cnt) # logs @ [dn, End], st')"
    by simp
  from publish_unfold [OF creds pl dl res] logs show ?thesis by (intro exI [of _ logs]) simp
qed

lemma progress_not_done: "list_all is_progress es \<Longrightarrow> Write (Done c n x) \<notin> set es"
  by (auto simp: list_all_iff)

text \<open>
  Claim C1.  A run over a playlist of three songs reaches the upload loop; the uploads of
  songs 1 and 3 return keys and the upload of song 2 fails.  Then exactly one manifest is
  posted; it has two chapters, keyed \<open>00\<close> and \<open>01\<close>, for song 1 and song 3 in this order,
  each with the key its upload returned.  Every \<open>done\<close> event of the run reports 2
  uploaded tracks and an \<open>errors\<close> list whose one entry is song 2 with its error; and
  when the remote accepts the manifest, that \<open>done\<close> event is the terminal event of the
  run, followed by the end of the response.
\<close>

theorem partial_failure_manifest:
  assumes creds: "getStoredCredentials st = Some creds"
      and pl: "playlists st pid = Some pl"
      and songs: "playlist_songs st pid = [s1, s2, s3]"
      and dl: "filter (not_downloaded ev) [s1, s2, s3] = []"
      and out: "outcomes ev creds [s1, s2, s3] 0 [] = [Inr k1, Inl e2, Inr k3]"
  shows "\<exists>pre cnt post.
           fst (publish ev st pid) = pre @ Net (PostContent (accessToken creds) cnt) # post
         \<and> filter is_post_content pre = [] \<and> filter is_post_content post = []
         \<and> c_chapters cnt =
             [\<lparr>ch_key = ''00'', ch_title = song_title s1,
               ch_tracks = [\<lparr>ct_key = ''01'', ct_title = song_title s1, ct_format = ''aac'',
                             ct_trackUrl = k1, ct_type = ''audio'',
                             ct_duration = (case song_duration s1 of None \<Rightarrow> 0 | Some d \<Rightarrow> d)\<rparr>]\<rparr>,
              \<lparr>ch_key = ''01'', ch_title = song_title s3,
               ch_tracks = [\<lparr>ct_key = ''01'', ct_title = song_title s3, ct_format = ''aac'',
                             ct_trackUrl = k3, ct_type = ''audio'',
                             ct_duration = (case song_duration s3 of None \<Rightarrow> 0 | Some d \<Rightarrow> d)\<rparr>]\<rparr>]
         \<and> (\<forall>cdata n es. Write (Done cdata n es) \<in> set (fst (publish ev st pid))
               \<longrightarrow> n = 2 \<and> es = Some [(song_title s2, e2)])
         \<and> (\<forall>cdata. accepted ev pl pre (PostContent (accessToken creds) cnt) cdata
               \<longrightarrow> (\<exists>logs. list_all is_log_write logs
                     \<and> post = logs @ [Write (Done cdata 2 (Some [(song_title s2, e2)])), End]))"
proof -
  obtain tracks errors tr1 where
    loop: "upload_loop ev creds [s1, s2, s3] 0 [] [] [] = (tracks, errors, tr1)"
    by (cases "upload_loop ev creds [s1, s2, s3] 0 [] [] []")
  from upload_loop_outcomes [OF loop] out
  have tracks: "tracks = [\<lparr>track_title = song_title s1, trackNumber = 1, track_key = k1,
                           track_duration = song_duration s1, track_format = ''mp3''\<rparr>,
                          \<lparr>track_title = song_title s3, trackNumber = 3, track_key = k3,
                           track_duration = song_duration s3, track_format = ''mp3''\<rparr>]"
    and errors: "errors = [(song_title s2, e2)]"
    by simp_all
  have ne: "tracks \<noteq> []" and len: "length tracks = 2" using tracks by simp_all
  define cnt where "cnt = build_content pl creds tracks"
  define pre where "pre = tr1 @ announce pl cnt"
  define rq where "rq = Net (PostContent (accessToken creds) cnt)"
  define dn where "dn = (\<lambda>cdata. Write (Done cdata 2 (Some [(song_title s2, e2)])))"
  have dn': "dn = (\<lambda>cdata. Write (Done cdata (length tracks) (if errors \<noteq> [] then Some errors else None)))"
    by (simp add: dn_def len errors)
  note loop' = loop [folded songs] and dl' = dl [folded songs]
  from publish_submitting [OF creds pl dl' loop' ne cnt_def dn'] obtain post where
    tr: "fst (publish ev st pid) = pre @ rq # post" and
    post: "(\<exists>e. post = [Write (Error (Uncaught e)), End])
              \<or> (\<exists>s t. post = [Write (Log (ErrorResponse t)),
                               Write (Error (FailedToCreateCard s t)), End])
              \<or> (\<exists>cdata. post = [dn cdata, End])
              \<or> (\<exists>cdata v. post = [Write (Log (SavedCardId v)), dn cdata, End])"
    by (auto simp: pre_def rq_def)
  from upload_loop_progress [OF loop] have prog: "list_all is_progress tr1" by simp
  have a: "filter is_post_content pre = []"
    using progress_not_post [OF prog] by (simp add: pre_def announce_def)
  have b: "filter is_post_content post = []"
    using post by (auto simp: dn_def)
  have keys: "padStart2 (String_of 0) = ''00''" "padStart2 (String_of (Suc 0)) = ''01''"
    by (simp_all add: padStart2_def String_of.simps)
  have c: "c_chapters cnt =
             [\<lparr>ch_key = ''00'', ch_title = song_title s1,
               ch_tracks = [\<lparr>ct_key = ''01'', ct_title = song_title s1, ct_format = ''aac'',
                             ct_trackUrl = k1, ct_type = ''audio'',
                             ct_duration = (case song_duration s1 of None \<Rightarrow> 0 | Some d \<Rightarrow> d)\<rparr>]\<rparr>,
              \<lparr>ch_key = ''01'', ch_title = song_title s3,
               ch_tracks = [\<lparr>ct_key = ''01'', ct_title = song_title s3, ct_format = ''aac'',
                             ct_trackUrl = k3, ct_type = ''audio'',
                             ct_duration = (case song_duration s3 of None \<Rightarrow> 0 | Some d \<Rightarrow> d)\<rparr>]\<rparr>]"
    by (simp add: cnt_def build_content_def tracks mk_chapter_def keys)
  have d: "\<forall>cdata n es. Write (Done cdata n es) \<in> set (fst (publish ev st pid))
               \<longrightarrow> n = 2 \<and> es = Some [(song_title s2, e2)]"
  proof (intro allI impI)
    fix cdata n es
    assume "Write (Done cdata n es) \<in> set (fst (publish ev st pid))"
    with tr progress_not_done [OF prog, of cdata n es]
    have "Write (Done cdata n es) \<in> set post"
      by (auto simp: pre_def rq_def announce_def)
    with post show "n = 2 \<and> es = Some [(song_title s2, e2)]"
      by (auto simp: dn_def)
  qed
  have e: "\<forall>cdata. accepted ev pl pre (PostContent (accessToken creds) cnt) cdata
               \<longrightarrow> (\<exists>logs. list_all is_log_write logs \<and> post = logs @ [dn cdata, End])"
  proof (intro allI impI)
    fix cdata
    assume "accepted ev pl pre (PostContent (accessToken creds) cnt) cdata"
    then have acc: "accepted ev pl (tr1 @ announce pl cnt) (PostContent (accessToken creds) cnt) cdata"
      by (simp add: pre_def)
    have dnc: "dn cdata = Write (Done cdata (length tracks) (if errors \<noteq> [] then Some errors else None))"
      by (simp add: dn_def len errors)
    from publish_accepted [OF creds pl dl' loop' ne cnt_def acc dnc] obtain logs where
      "list_all is_log_write logs"
      "fst (publish ev st pid) = pre @ rq # logs @ [dn cdata, End]"
      by (auto simp: pre_def rq_def)
    with tr show "\<exists>logs. list_all is_log_write logs \<and> post = logs @ [dn cdata, End]"
      by auto
  qed
  from tr a b c d e show ?thesis
    unfolding rq_def dn_def by blast
qed

theorem partial_failure_manifest_witness:
  "getStoredCredentials example_state = Some example_creds
   \<and> playlist_songs example_state ''p1'' = [example_songs ! 0, example_songs ! 1, example_songs ! 2]
   \<and> outcomes example_env example_creds [example_songs ! 0, example_songs ! 1, example_songs ! 2] 0 []
       = [Inr (JStr ''a.mp3''), Inl (FailedToUploadToS3 500), Inr (JStr ''c.mp3'')]
   \<and> (\<exists>pre cnt post.
         fst (publish example_env example_state ''p1'') = pre @ Net (PostContent ''at'' cnt) # post
         \<and> filter is_post_content pre = [] \<and> filter is_post_content post = []
         \<and> map ch_key (c_chapters cnt) = [''00'', ''01'']
         \<and> map ch_title (c_chapters cnt) = [''A'', ''C''])
   \<and> Write (Done (JObj [(''card'', JObj [(''cardId'', JStr ''card1'')])]) 2
              (Some [(''B'', FailedToUploadToS3 500)]))
       \<in> set (fst (publish example_env example_state ''p1''))"
proof -
  have c: "getStoredCredentials example_state = Some example_creds"
    by (simp add: getStoredCredentials_def example_state_def example_creds_def)
  have p: "playlists example_state ''p1'' = Some \<lparr>name = ''Mix'', yoto_card_id = None\<rparr>"
    by (simp add: example_state_def)
  have s: "playlist_songs example_state ''p1''
             = [example_songs ! 0, example_songs ! 1, example_songs ! 2]"
    by (simp add: example_state_def example_songs_def)
  have d: "filter (not_downloaded example_env)
             [example_songs ! 0, example_songs ! 1, example_songs ! 2] = []"
    by (simp add: example_songs_def not_downloaded_def example_env_def)
  have o: "outcomes example_env example_creds
             [example_songs ! 0, example_songs ! 1, example_songs ! 2] 0 []
           = [Inr (JStr ''a.mp3''), Inl (FailedToUploadToS3 500), Inr (JStr ''c.mp3'')]"
    by code_simp
  have t: "song_title (example_songs ! 0) = ''A''" "song_title (example_songs ! 1) = ''B''"
          "song_title (example_songs ! 2) = ''C''" "accessToken example_creds = ''at''"
    by (simp_all add: example_songs_def example_creds_def)
  have m: "Write (Done (JObj [(''card'', JObj [(''cardId'', JStr ''card1'')])]) 2
              (Some [(''B'', FailedToUploadToS3 500)]))
             \<in> set (fst (publish example_env example_state ''p1''))"
    by code_simp
  note inst = partial_failure_manifest [OF c p s d o, unfolded t]
  from inst obtain pre cnt post where
    r1: "fst (publish example_env example_state ''p1'') = pre @ Net (PostContent ''at'' cnt) # post"
    and r2: "filter is_post_content pre = []" and r3: "filter is_post_content post = []"
    and r4: "c_chapters cnt =
             [\<lparr>ch_key = ''00'', ch_title = ''A'',
               ch_tracks = [\<lparr>ct_key = ''01'', ct_title = ''A'',
                             ct_format = ''aac'', ct_trackUrl = JStr ''a.mp3'', ct_type = ''audio'',
                             ct_duration = (case song_duration (example_songs ! 0) of
                                              None \<Rightarrow> 0 | Some d \<Rightarrow> d)\<rparr>]\<rparr>,
              \<lparr>ch_key = ''01'', ch_title = ''C'',
               ch_tracks = [\<lparr>ct_key = ''01'', ct_title = ''C'',
                             ct_format = ''aac'', ct_trackUrl = JStr ''c.mp3'', ct_type = ''audio'',
                             ct_duration = (case song_duration (example_songs ! 2) of
                                              None \<Rightarrow> 0 | Some d \<Rightarrow> d)\<rparr>]\<rparr>]"
    by (elim exE conjE) (rule that; assumption)
  have k: "map ch_key (c_chapters cnt) = [''00'', ''01'']"
          "map ch_title (c_chapters cnt) = [''A'', ''C'']"
    by (simp_all add: r4)
  have e: "\<exists>pre cnt post.
         fst (publish example_env example_state ''p1'') = pre @ Net (PostContent ''at'' cnt) # post
         \<and> filter is_post_content pre = [] \<and> filter is_post_content post = []
         \<and> map ch_key (c_chapters cnt) = [''00'', ''01'']
         \<and> map ch_title (c_chapters cnt) = [''A'', ''C'']"
    by (intro exI [of _ pre] exI [of _ cnt] exI [of _ post] conjI r1 r2 r3 k)
  show ?thesis
    by (intro conjI) (fact c, fact s, fact o, fact e, fact m)
qed

end
